theory Spec2Isabelle
  imports Complex_Main
begin

section \<open>The Go runtime the server runs on\<close>

text \<open>
  The server is two Go files: \<^verbatim>\<open>main.go\<close> (the response generator and the request handler)
  and the file that declares the \<^verbatim>\<open>Sleeper\<close> interface with its two implementations.
  Go's \<^verbatim>\<open>int\<close> is 64 bits wide; every integer the program computes stays far below that
  bound (counts up to 100, durations up to twelve hours in nanoseconds), so integers are
  modelled as \<open>int\<close>. A run-time panic is a value of the type \<open>panic\<close>, and a function that
  can panic returns \<open>panic + 'a\<close>. The fatal error with which the runtime ends a program
  that is out of memory is the value \<open>OutOfMemory\<close> of that type.
\<close>

datatype panic = IntnInvalidArgument | IndexOutOfRange | MakeSliceLenOutOfRange | OutOfMemory

type_synonym 'a result = "panic + 'a"

definition bind_result :: "'a result \<Rightarrow> ('a \<Rightarrow> 'b result) \<Rightarrow> 'b result" where
  "bind_result m f = (case m of Inl e \<Rightarrow> Inl e | Inr x \<Rightarrow> f x)"

text \<open>\<^verbatim>\<open>len(xs)\<close> and \<^verbatim>\<open>xs[i]\<close>: indexing outside the slice panics.\<close>

definition len :: "'a list \<Rightarrow> int" where
  "len xs = int (length xs)"

definition index :: "'a list \<Rightarrow> int \<Rightarrow> 'a result" where
  "index xs i = (if 0 \<le> i \<and> i < len xs then Inr (xs ! nat i) else Inl IndexOutOfRange)"

text \<open>\<^verbatim>\<open>time.Duration\<close> counts nanoseconds.\<close>

definition Millisecond :: int where
  "Millisecond = 1000000"

definition Hour :: int where
  "Hour = 3600000000000"

subsection \<open>float64 addition\<close>

text \<open>
  A \<^verbatim>\<open>float64\<close> is the real number it denotes. The sum of two of them is the exact sum
  rounded to the nearest binary64 value, ties to the even significand (IEEE 754, which
  the Go specification prescribes): a value \<open>x\<close> with \<open>2 ^ e \<le> \<bar>x\<bar> < 2 ^ (e + 1)\<close> lies on a
  grid of step \<open>2 ^ (e - 52)\<close>. Overflow and subnormal numbers are left out: every sum the
  program forms lies between 5 and 40.
\<close>

definition round_half_even :: "real \<Rightarrow> int" where
  "round_half_even y =
     (let f = \<lfloor>y\<rfloor>; d = y - of_int f
      in if d < 1 / 2 then f else if 1 / 2 < d then f + 1 else if even f then f else f + 1)"

definition ulp :: "real \<Rightarrow> real" where
  "ulp x = 2 powi (\<lfloor>log 2 \<bar>x\<bar>\<rfloor> - 52)"

definition float64_round :: "real \<Rightarrow> real" where
  "float64_round x = (if x = 0 then 0 else of_int (round_half_even (x / ulp x)) * ulp x)"

definition float64_add :: "real \<Rightarrow> real \<Rightarrow> real" where
  "float64_add a b = float64_round (a + b)"

section \<open>Data model\<close>

text \<open>
  \<^verbatim>\<open>WeatherReading\<close> and \<^verbatim>\<open>DataResponse\<close> as declared in \<^verbatim>\<open>main.go\<close>. A \<^verbatim>\<open>time.Time\<close> is
  the number of nanoseconds since the epoch. A slice field distinguishes the nil slice
  (\<open>None\<close>) from an allocated one (\<open>Some\<close>), because \<^verbatim>\<open>encoding/json\<close> does.
\<close>

record WeatherReading =
  City :: string
  Timestamp :: int
  Temperature :: real
  Humidity :: int
  Condition :: string

record DataResponse =
  Readings :: "WeatherReading list option"
  Message :: string

definition zero_WeatherReading :: WeatherReading where
  "zero_WeatherReading =
     \<lparr>City = [], Timestamp = 0, Temperature = 0, Humidity = 0, Condition = []\<rparr>"

text \<open>The two implementations of the \<^verbatim>\<open>Sleeper\<close> interface.\<close>

datatype Sleeper = DefaultSleeper | NoOpSleeper

section \<open>The world: random source, clock and observable calls\<close>

text \<open>
  The effects of the program are calls on its collaborators: the response writer \<^verbatim>\<open>w\<close>,
  the sleeper \<^verbatim>\<open>s\<close>, the logger, \<^verbatim>\<open>time.Sleep\<close>, the random source \<^verbatim>\<open>r\<close> and the clock.
  Each call is an \<open>event\<close>, appended to the trace of the world in program order. Log
  lines carry their arguments instead of the formatted text; a call that returns a
  value carries the value returned.
\<close>

datatype event =
    HeaderSet string string
  | LogInvalidSize string
  | LogDelay int
  | SleeperSleep Sleeper int
  | TimeSleep int
  | LogNoOpSleeper int
  | WriteHeader int
  | LogSuccess int int
  | LogError int string
  | Encode DataResponse
  | RandIntn int int
  | RandFloat64 real
  | TimeNow int

text \<open>
  The global random source \<^verbatim>\<open>r\<close> and the wall clock are the environment. \<open>rng w\<close> is the
  infinite sequence of raw outcomes the source will deliver, one for each call, and
  \<open>clock w\<close> the sequence of instants \<^verbatim>\<open>time.Now()\<close> will return. \<^verbatim>\<open>math/rand\<close> is not part of
  the repository; its functions are modelled by their documented contract:
  \<^verbatim>\<open>Intn(n)\<close> panics when \<open>n \<le> 0\<close> and otherwise returns an integer in \<open>[0, n)\<close>, here the raw
  outcome modulo \<open>n\<close>, so that every value of the range can occur; \<^verbatim>\<open>Float64()\<close> returns a
  float64 in \<open>[0, 1)\<close>, here a multiple of \<open>2 ^ -53\<close> (the largest being \<open>1 - 2 ^ -53\<close>, the
  largest float64 below one, which the library's \<^verbatim>\<open>float64(r.Int63()) / (1 << 63)\<close>
  returns for \<^verbatim>\<open>Int63() = 1<<63 - 1024\<close>).

  The heap is part of the environment too. It is taken to have room for the 100
  readings of the largest request; \<open>heap_room w\<close> is the number of further readings it has
  room for.
\<close>

record world =
  rng :: "nat \<Rightarrow> nat"
  clock :: "nat \<Rightarrow> int"
  trace :: "event list"
  heap_room :: nat

definition emit :: "event \<Rightarrow> world \<Rightarrow> world" where
  "emit e w = w\<lparr>trace := trace w @ [e]\<rparr>"

definition Intn :: "int \<Rightarrow> world \<Rightarrow> (int \<times> world) result" where
  "Intn n w =
     (if n \<le> 0 then Inl IntnInvalidArgument
      else (let v = int (rng w 0 mod nat n)
            in Inr (v, emit (RandIntn n v) (w\<lparr>rng := \<lambda>i. rng w (Suc i)\<rparr>))))"

definition Float64 :: "world \<Rightarrow> real \<times> world" where
  "Float64 w =
     (let f = real (rng w 0 mod 2 ^ 53) / 2 ^ 53
      in (f, emit (RandFloat64 f) (w\<lparr>rng := \<lambda>i. rng w (Suc i)\<rparr>)))"

definition time_Now :: "world \<Rightarrow> int \<times> world" where
  "time_Now w = (clock w 0, emit (TimeNow (clock w 0)) (w\<lparr>clock := \<lambda>i. clock w (Suc i)\<rparr>))"

section \<open>Response generator\<close>

definition cities :: "string list" where
  "cities = [''New York'', ''London'', ''Paris'', ''Tokyo'', ''Sydney'', ''Lagos'', ''Dubai'', ''Rio'']"

definition conditions :: "string list" where
  "conditions = [''Sunny'', ''Partly Cloudy'', ''Cloudy'', ''Rainy'', ''Stormy'', ''Foggy'', ''Snowy'']"

text \<open>
  The composite literal of the loop body of \<^verbatim>\<open>generateDummyWeatherReadings\<close>: its calls
  run in the order they are written. \<^verbatim>\<open>float64(r.Intn(35)+5)\<close> is exact.
\<close>

definition reading_literal :: "world \<Rightarrow> (WeatherReading \<times> world) result" where
  "reading_literal w0 =
     bind_result (Intn (len cities) w0) (\<lambda>(ci, w1).
     bind_result (index cities ci) (\<lambda>city.
     (let (now, w2) = time_Now w1 in
     bind_result (Intn 24 w2) (\<lambda>(h, w3).
     bind_result (Intn 35 w3) (\<lambda>(t, w4).
     (let (f, w5) = Float64 w4 in
     bind_result (Intn 80 w5) (\<lambda>(hu, w6).
     bind_result (Intn (len conditions) w6) (\<lambda>(ki, w7).
     bind_result (index conditions ki) (\<lambda>cond.
       Inr (\<lparr>City = city,
            Timestamp = now + (h - 12) * Hour,
            Temperature = float64_add (of_int (t + 5)) f,
            Humidity = hu + 20,
            Condition = cond\<rparr>, w7))))))))))"

text \<open>The loop \<^verbatim>\<open>for i := 0; i < count; i++ { readings[i] = ... }\<close>.\<close>

function fill :: "int \<Rightarrow> int \<Rightarrow> WeatherReading list \<Rightarrow> world \<Rightarrow> (WeatherReading list \<times> world) result" where
  "fill i count readings w =
     (if i < count then
        (case reading_literal w of
           Inl e \<Rightarrow> Inl e
         | Inr (rd, w') \<Rightarrow>
             if 0 \<le> i \<and> i < len readings then fill (i + 1) count (readings[nat i := rd]) w'
             else Inl IndexOutOfRange)
      else Inr (readings, w))"
  by pat_completeness auto
termination
  by (relation "measure (\<lambda>(i, count, readings, w). nat (count - i))") auto

text \<open>
  \<^verbatim>\<open>make([]WeatherReading, count)\<close>. The runtime's \<^verbatim>\<open>makeslice\<close> panics (\<^verbatim>\<open>len out of range\<close>)
  when the length is negative or the slice would take more than \<^verbatim>\<open>maxAlloc\<close> bytes, which
  is \<open>2 ^ 48\<close> on a 64-bit platform; a \<^verbatim>\<open>WeatherReading\<close> takes 72 bytes there (two strings of
  16 bytes, a \<^verbatim>\<open>time.Time\<close> of 24, a \<^verbatim>\<open>float64\<close> and an \<^verbatim>\<open>int\<close> of 8 each). A slice that
  passes this check and for which the heap has no room ends the program.
\<close>

definition sizeof_WeatherReading :: int where
  "sizeof_WeatherReading = 72"

definition maxAlloc :: int where
  "maxAlloc = 2 ^ 48"

definition make_WeatherReadings :: "int \<Rightarrow> world \<Rightarrow> WeatherReading list result" where
  "make_WeatherReadings n w =
     (if n < 0 \<or> maxAlloc < n * sizeof_WeatherReading then Inl MakeSliceLenOutOfRange
      else if 100 + int (heap_room w) < n then Inl OutOfMemory
      else Inr (replicate (nat n) zero_WeatherReading))"

definition generateDummyWeatherReadings :: "int \<Rightarrow> world \<Rightarrow> (WeatherReading list \<times> world) result" where
  "generateDummyWeatherReadings count w =
     bind_result (make_WeatherReadings count w) (\<lambda>readings. fill 0 count readings w)"

text \<open>
  \<^verbatim>\<open>getResponseStatusCode\<close>, with the constants of \<^verbatim>\<open>net/http\<close> it names.
\<close>

definition StatusOK :: int where "StatusOK = 200"
definition StatusCreated :: int where "StatusCreated = 201"
definition StatusAccepted :: int where "StatusAccepted = 202"
definition StatusNoContent :: int where "StatusNoContent = 204"
definition StatusBadRequest :: int where "StatusBadRequest = 400"
definition StatusUnauthorized :: int where "StatusUnauthorized = 401"
definition StatusForbidden :: int where "StatusForbidden = 403"
definition StatusNotFound :: int where "StatusNotFound = 404"
definition StatusMethodNotAllowed :: int where "StatusMethodNotAllowed = 405"
definition StatusInternalServerError :: int where "StatusInternalServerError = 500"
definition StatusNotImplemented :: int where "StatusNotImplemented = 501"
definition StatusBadGateway :: int where "StatusBadGateway = 502"
definition StatusServiceUnavailable :: int where "StatusServiceUnavailable = 503"
definition StatusGatewayTimeout :: int where "StatusGatewayTimeout = 504"

definition statusCodes2xx :: "int list" where
  "statusCodes2xx = [StatusOK, StatusCreated, StatusAccepted, StatusNoContent]"

definition statusCodes4xx :: "int list" where
  "statusCodes4xx =
     [StatusBadRequest, StatusUnauthorized, StatusNotFound, StatusForbidden, StatusMethodNotAllowed]"

definition statusCodes5xx :: "int list" where
  "statusCodes5xx =
     [StatusInternalServerError, StatusNotImplemented, StatusBadGateway,
      StatusServiceUnavailable, StatusGatewayTimeout]"

definition getResponseStatusCode :: "world \<Rightarrow> (int \<times> world) result" where
  "getResponseStatusCode w0 =
     bind_result (Intn 100 w0) (\<lambda>(randomNumber, w1).
       if randomNumber < 70 then
         bind_result (Intn (len statusCodes2xx) w1) (\<lambda>(i, w2).
         bind_result (index statusCodes2xx i) (\<lambda>c. Inr (c, w2)))
       else if randomNumber < 85 then
         bind_result (Intn (len statusCodes4xx) w1) (\<lambda>(i, w2).
         bind_result (index statusCodes4xx i) (\<lambda>c. Inr (c, w2)))
       else
         bind_result (Intn (len statusCodes5xx) w1) (\<lambda>(i, w2).
         bind_result (index statusCodes5xx i) (\<lambda>c. Inr (c, w2))))"

section \<open>Library functions the handler calls\<close>

subsection \<open>strconv.Atoi\<close>

text \<open>
  \<^verbatim>\<open>strconv.Atoi(s)\<close> is \<^verbatim>\<open>ParseInt(s, 10, 0)\<close>: an optional sign, then one or more decimal
  digits, scanned from the left; a byte that is no digit is a syntax error, a value
  outside the 64-bit range a range error.
\<close>

datatype NumError = ErrSyntax | ErrRange

definition is_digit :: "char \<Rightarrow> bool" where
  "is_digit c = (48 \<le> (of_char c :: nat) \<and> (of_char c :: nat) \<le> 57)"

fun ParseUint :: "nat \<Rightarrow> string \<Rightarrow> NumError + nat" where
  "ParseUint n [] = Inr n"
| "ParseUint n (c # cs) =
     (if \<not> is_digit c then Inl ErrSyntax
      else if n \<ge> (2 ^ 64 - 1) div 10 + 1 then Inl ErrRange
      else (let n1 = n * 10 + (of_char c - 48)
            in if n1 > 2 ^ 64 - 1 then Inl ErrRange else ParseUint n1 cs))"

definition Atoi :: "string \<Rightarrow> NumError + int" where
  "Atoi s =
     (case s of
        [] \<Rightarrow> Inl ErrSyntax
      | c # cs \<Rightarrow>
          (let neg = (c = CHR ''-'');
               ds = (if c = CHR ''+'' \<or> c = CHR ''-'' then cs else s)
           in if ds = [] then Inl ErrSyntax
              else (case ParseUint 0 ds of
                      Inl e \<Rightarrow> Inl e
                    | Inr un \<Rightarrow>
                        if \<not> neg \<and> un \<ge> 2 ^ 63 then Inl ErrRange
                        else if neg \<and> un > 2 ^ 63 then Inl ErrRange
                        else Inr (if neg then - int un else int un))))"

subsection \<open>fmt.Sprintf with the verb %d\<close>

function FormatUint :: "nat \<Rightarrow> string" where
  "FormatUint n =
     (if n < 10 then [''0123456789'' ! n]
      else FormatUint (n div 10) @ [''0123456789'' ! (n mod 10)])"
  by pat_completeness auto
termination
  by (relation "measure (\<lambda>n. n)") auto

definition Itoa :: "int \<Rightarrow> string" where
  "Itoa i = (if i < 0 then CHR ''-'' # FormatUint (nat (- i)) else FormatUint (nat i))"

subsection \<open>url.Values\<close>

text \<open>
  \<^verbatim>\<open>req.URL.Query()\<close> is the parsed query string, a map from a key to the list of its
  values; \<^verbatim>\<open>Get\<close> returns the first value of a key, and the empty string when there is none.
\<close>

type_synonym Values = "string \<rightharpoonup> string list"

record Request =
  URL_Query :: Values

definition Get :: "Values \<Rightarrow> string \<Rightarrow> string" where
  "Get v key = (case v key of None \<Rightarrow> [] | Some [] \<Rightarrow> [] | Some (x # xs) \<Rightarrow> x)"

subsection \<open>encoding/json\<close>

text \<open>
  The encoder writes the fields of a struct in the order of their declaration, under
  the key of the field's tag. A field tagged \<^verbatim>\<open>omitempty\<close> is left out when it holds the
  empty value of its type. A nil slice is written as \<^verbatim>\<open>null\<close>, an allocated slice as an
  array. The text of a number and of a timestamp is not modelled.
\<close>

datatype json =
    JNull
  | JString string
  | JInt int
  | JFloat real
  | JTime int
  | JArray "json list"
  | JObject "(string \<times> json) list"

definition encode_WeatherReading :: "WeatherReading \<Rightarrow> json" where
  "encode_WeatherReading r =
     JObject [(''city'', JString (City r)),
              (''timestamp'', JTime (Timestamp r)),
              (''temperature'', JFloat (Temperature r)),
              (''humidity'', JInt (Humidity r)),
              (''condition'', JString (Condition r))]"

definition encode_DataResponse :: "DataResponse \<Rightarrow> json" where
  "encode_DataResponse d =
     JObject ([(''readings'',
                (case Readings d of
                   None \<Rightarrow> JNull
                 | Some rs \<Rightarrow> JArray (map encode_WeatherReading rs)))]
              @ (if Message d = [] then [] else [(''message'', JString (Message d))]))"

section \<open>The sleepers\<close>

text \<open>
  \<^verbatim>\<open>DefaultSleeper.Sleep\<close> calls \<^verbatim>\<open>time.Sleep\<close>; \<^verbatim>\<open>NoOpSleeper.Sleep\<close> writes a log line.
\<close>

fun Sleep :: "Sleeper \<Rightarrow> int \<Rightarrow> world \<Rightarrow> world" where
  "Sleep DefaultSleeper d w = emit (TimeSleep d) w"
| "Sleep NoOpSleeper d w = emit (LogNoOpSleeper d) w"

section \<open>Request handler\<close>

text \<open>
  The statement that parses and checks the \<^verbatim>\<open>size\<close> parameter: it yields the size the
  handler goes on with.
\<close>

definition parse_size :: "string \<Rightarrow> world \<Rightarrow> int \<times> world" where
  "parse_size sizeStr w =
     (case Atoi sizeStr of
        Inl err \<Rightarrow> (10, emit (LogInvalidSize sizeStr) w)
      | Inr n \<Rightarrow>
          if n < 10 \<or> n > 100 then (10, emit (LogInvalidSize sizeStr) w)
          else (n, w))"

text \<open>
  \<^verbatim>\<open>weatherHandler(s, w, req)\<close>. The call \<^verbatim>\<open>s.Sleep(delay)\<close> on the interface is the event
  \<open>SleeperSleep\<close>, followed by what the implementation does.
  \<^verbatim>\<open>json.NewEncoder(w).Encode(responseData)\<close> is the event \<open>Encode\<close>: it writes
  \<open>encode_DataResponse responseData\<close> to the response writer.
\<close>

definition weatherHandler :: "Sleeper \<Rightarrow> Request \<Rightarrow> world \<Rightarrow> world result" where
  "weatherHandler s req w0 =
     (let w1 = emit (HeaderSet ''Content-Type'' ''application/json'') w0;
          sizeStr = Get (URL_Query req) ''size'';
          (size', w2) = parse_size sizeStr w1
      in bind_result (Intn 5001 w2) (\<lambda>(ms, w3).
         (let delay = ms * Millisecond;
              w4 = emit (LogDelay delay) w3;
              w5 = Sleep s delay (emit (SleeperSleep s delay) w4)
          in bind_result (getResponseStatusCode w5) (\<lambda>(statusCode, w6).
             (let w7 = emit (WriteHeader statusCode) w6
              in if statusCode \<ge> 200 \<and> statusCode < 300 then
                   bind_result (generateDummyWeatherReadings size' w7) (\<lambda>(readings, w8).
                     (let responseData =
                            \<lparr>Readings = Some readings,
                             Message = ''Successfully retrieved '' @ Itoa (len readings)
                                         @ '' weather readings.''\<rparr>;
                          w9 = emit (LogSuccess statusCode (len readings)) w8
                      in Inr (emit (Encode responseData) w9)))
                 else
                   (let errorMessage = ''An error occurred with status code '' @ Itoa statusCode
                                         @ ''. This is a dummy error for testing.'';
                        responseData = \<lparr>Readings = None, Message = errorMessage\<rparr>;
                        w8 = emit (LogError statusCode errorMessage) w7
                    in Inr (emit (Encode responseData) w8)))))))"

section \<open>What a run shows\<close>

text \<open>
  The events a call appended to the trace, and the arguments of the calls of one kind
  among them: the status codes written to the response, the values handed to the JSON
  encoder, the durations the sleeper was called with, and the draws from the random
  source.
\<close>

definition new_events :: "world \<Rightarrow> world \<Rightarrow> event list" where
  "new_events w w' = drop (length (trace w)) (trace w')"

fun status_codes_written :: "event list \<Rightarrow> int list" where
  "status_codes_written [] = []"
| "status_codes_written (WriteHeader c # es) = c # status_codes_written es"
| "status_codes_written (e # es) = status_codes_written es"

fun encoded :: "event list \<Rightarrow> DataResponse list" where
  "encoded [] = []"
| "encoded (Encode d # es) = d # encoded es"
| "encoded (e # es) = encoded es"

fun sleeper_calls :: "event list \<Rightarrow> (Sleeper \<times> int) list" where
  "sleeper_calls [] = []"
| "sleeper_calls (SleeperSleep s d # es) = (s, d) # sleeper_calls es"
| "sleeper_calls (e # es) = sleeper_calls es"

fun intn_draws :: "event list \<Rightarrow> (int \<times> int) list" where
  "intn_draws [] = []"
| "intn_draws (RandIntn n v # es) = (n, v) # intn_draws es"
| "intn_draws (e # es) = intn_draws es"

text \<open>The keys of a JSON object, and the value under a key.\<close>

fun object_keys :: "json \<Rightarrow> string list" where
  "object_keys (JObject kvs) = map fst kvs"
| "object_keys j = []"

fun object_get :: "json \<Rightarrow> string \<Rightarrow> json option" where
  "object_get (JObject kvs) k = map_of kvs k"
| "object_get j k = None"

section \<open>Closed forms of the generator\<close>

text \<open>
  The reading number \<open>k\<close> of a call of \<^verbatim>\<open>generateDummyWeatherReadings\<close> on the world \<open>w\<close>
  consumes the raw outcomes \<open>6 * k\<close> to \<open>6 * k + 5\<close> and the clock reading \<open>k\<close>.
\<close>

definition reading_at :: "world \<Rightarrow> nat \<Rightarrow> WeatherReading" where
  "reading_at w k =
     \<lparr>City = cities ! (rng w (6 * k) mod 8),
      Timestamp = clock w k + (int (rng w (6 * k + 1) mod 24) - 12) * Hour,
      Temperature = float64_add (real (rng w (6 * k + 2) mod 35 + 5))
                      (real (rng w (6 * k + 3) mod 2 ^ 53) / 2 ^ 53),
      Humidity = int (rng w (6 * k + 4) mod 80) + 20,
      Condition = conditions ! (rng w (6 * k + 5) mod 7)\<rparr>"

definition reading_events :: "world \<Rightarrow> nat \<Rightarrow> event list" where
  "reading_events w k =
     [RandIntn 8 (int (rng w (6 * k) mod 8)),
      TimeNow (clock w k),
      RandIntn 24 (int (rng w (6 * k + 1) mod 24)),
      RandIntn 35 (int (rng w (6 * k + 2) mod 35)),
      RandFloat64 (real (rng w (6 * k + 3) mod 2 ^ 53) / 2 ^ 53),
      RandIntn 80 (int (rng w (6 * k + 4) mod 80)),
      RandIntn 7 (int (rng w (6 * k + 5) mod 7))]"

definition advance :: "nat \<Rightarrow> world \<Rightarrow> world" where
  "advance k w =
     w\<lparr>rng := \<lambda>i. rng w (i + 6 * k),
       clock := \<lambda>i. clock w (i + k),
       trace := trace w @ concat (map (reading_events w) [0..<k])\<rparr>"

section \<open>Closed forms of the status draw and of the handler\<close>

text \<open>
  The effective size in the words of the specification: the integer value of the
  parameter when it parses as an integer between 10 and 100, and 10 in every other case.
\<close>

definition spec_effective_size :: "string \<Rightarrow> int" where
  "spec_effective_size sizeStr =
     (case Atoi sizeStr of Inl e \<Rightarrow> 10 | Inr n \<Rightarrow> if 10 \<le> n \<and> n \<le> 100 then n else 10)"

definition size_events :: "string \<Rightarrow> event list" where
  "size_events sizeStr =
     (case Atoi sizeStr of
        Inl e \<Rightarrow> [LogInvalidSize sizeStr]
      | Inr n \<Rightarrow> if 10 \<le> n \<and> n \<le> 100 then [] else [LogInvalidSize sizeStr])"

text \<open>The status code as a function of the two raw outcomes its selection consumes.\<close>

definition pick_status :: "nat \<Rightarrow> nat \<Rightarrow> int" where
  "pick_status r0 r1 =
     (if r0 mod 100 < 70 then statusCodes2xx ! (r1 mod 4)
      else if r0 mod 100 < 85 then statusCodes4xx ! (r1 mod 5)
      else statusCodes5xx ! (r1 mod 5))"

definition status_events :: "nat \<Rightarrow> nat \<Rightarrow> event list" where
  "status_events r0 r1 =
     [RandIntn 100 (int (r0 mod 100)),
      if r0 mod 100 < 70 then RandIntn 4 (int (r1 mod 4)) else RandIntn 5 (int (r1 mod 5))]"

definition sleep_events :: "Sleeper \<Rightarrow> int \<Rightarrow> event list" where
  "sleep_events s d =
     (case s of DefaultSleeper \<Rightarrow> [TimeSleep d] | NoOpSleeper \<Rightarrow> [LogNoOpSleeper d])"

text \<open>
  The events of one call of the handler on the world \<open>w\<close>: the delay is the raw outcome
  0, the status code comes from the outcomes 1 and 2, the readings from the outcomes
  after them.
\<close>

definition response_events :: "string \<Rightarrow> world \<Rightarrow> event list" where
  "response_events sizeStr w =
     (let sz = spec_effective_size sizeStr;
          c = pick_status (rng w 1) (rng w 2);
          g = w\<lparr>rng := \<lambda>i. rng w (i + 3)\<rparr>;
          rs = map (reading_at g) [0..<nat sz];
          msg = ''An error occurred with status code '' @ Itoa c
                  @ ''. This is a dummy error for testing.''
      in if 200 \<le> c \<and> c < 300 then
           concat (map (reading_events g) [0..<nat sz])
           @ [LogSuccess c sz,
              Encode \<lparr>Readings = Some rs,
                      Message = ''Successfully retrieved '' @ Itoa sz @ '' weather readings.''\<rparr>]
         else [LogError c msg, Encode \<lparr>Readings = None, Message = msg\<rparr>])"

definition handler_events :: "Sleeper \<Rightarrow> string \<Rightarrow> world \<Rightarrow> event list" where
  "handler_events s sizeStr w =
     (let d = int (rng w 0 mod 5001) * Millisecond;
          c = pick_status (rng w 1) (rng w 2)
      in [HeaderSet ''Content-Type'' ''application/json''] @ size_events sizeStr
         @ [RandIntn 5001 (int (rng w 0 mod 5001)), LogDelay d, SleeperSleep s d]
         @ sleep_events s d @ status_events (rng w 1) (rng w 2) @ [WriteHeader c]
         @ response_events sizeStr w)"

section \<open>Concrete runs\<close>

text \<open>
  A world with a given sequence of raw outcomes, the clock at the epoch, an empty
  trace and a heap with room for 100 readings; requests with and without a \<^verbatim>\<open>size\<close>
  parameter.
\<close>

definition world_of :: "(nat \<Rightarrow> nat) \<Rightarrow> world" where
  "world_of f = \<lparr>rng = f, clock = (\<lambda>i. 0), trace = [], heap_room = 0\<rparr>"

definition request_with_size :: "string \<Rightarrow> Request" where
  "request_with_size v = \<lparr>URL_Query = [''size'' \<mapsto> [v]]\<rparr>"

definition request_without_size :: Request where
  "request_without_size = \<lparr>URL_Query = Map.empty\<rparr>"

text \<open>
  The raw outcomes of a reading whose temperature draws are 34 (so the integer part is
  39) and \<open>2 ^ 53 - 1\<close> (so the fraction is \<open>1 - 2 ^ -53\<close>).
\<close>

definition hot_draws :: "nat \<Rightarrow> nat" where
  "hot_draws i = (if i = 2 then 34 else if i = 3 then 2 ^ 53 - 1 else 0)"

section \<open>Rounding to float64\<close>

lemma round_half_even_ge: "of_int k \<le> y \<Longrightarrow> k \<le> round_half_even y"
proof -
  assume "of_int k \<le> y"
  then have "k \<le> \<lfloor>y\<rfloor>" by (simp add: le_floor_iff)
  then show ?thesis by (simp add: round_half_even_def Let_def)
qed

lemma round_half_even_le: "y \<le> of_int k \<Longrightarrow> round_half_even y \<le> k"
proof -
  assume le: "y \<le> of_int k"
  show ?thesis
  proof (cases "y = of_int k")
    case True
    then show ?thesis by (simp add: round_half_even_def Let_def)
  next
    case False
    with le have "y < of_int k" by simp
    then have "\<lfloor>y\<rfloor> < k" by (simp add: floor_less_iff)
    then show ?thesis by (simp add: round_half_even_def Let_def)
  qed
qed

lemma ulp_binade:
  assumes "2 powi e \<le> x" and "x < 2 powi (e + 1)"
  shows "ulp x = 2 powi (e - 52)"
proof -
  have pos: "0 < x" using assms(1) by (smt (verit) zero_less_power_int)
  have "(2::real) powr real_of_int e \<le> x \<and> x < 2 powr (real_of_int e + 1)"
    using assms powr_real_of_int' [of 2 e] powr_real_of_int' [of 2 "e + 1"] by simp
  then have "\<lfloor>log 2 x\<rfloor> = e"
    using pos by (simp add: floor_log_eq_powr_iff)
  then show ?thesis using pos by (simp add: ulp_def)
qed

text \<open>Rounding never crosses a point of the grid of its binade.\<close>

lemma float64_round_between:
  assumes "2 powi e \<le> x" and "x < 2 powi (e + 1)"
    and "of_int a * 2 powi (e - 52) \<le> x" and "x \<le> of_int b * 2 powi (e - 52)"
  shows "of_int a * 2 powi (e - 52) \<le> float64_round x \<and>
         float64_round x \<le> of_int b * 2 powi (e - 52)"
proof -
  let ?u = "(2::real) powi (e - 52)"
  have u: "0 < ?u" by simp
  have pos: "0 < x" using assms(1) by (smt (verit) zero_less_power_int)
  have r: "float64_round x = of_int (round_half_even (x / ?u)) * ?u"
    using pos ulp_binade [OF assms(1,2)] by (simp add: float64_round_def)
  have "of_int a \<le> x / ?u" using assms(3) u by (simp add: pos_le_divide_eq)
  then have 1: "a \<le> round_half_even (x / ?u)" by (rule round_half_even_ge)
  have "x / ?u \<le> of_int b" using assms(4) u by (simp add: pos_divide_le_eq)
  then have 2: "round_half_even (x / ?u) \<le> b" by (rule round_half_even_le)
  from 1 have "of_int a * ?u \<le> of_int (round_half_even (x / ?u)) * ?u"
    using u by (simp add: mult_right_mono)
  moreover from 2 have "of_int (round_half_even (x / ?u)) * ?u \<le> of_int b * ?u"
    using u by (simp add: mult_right_mono)
  ultimately show ?thesis using r by simp
qed

lemma float64_round_range:
  assumes "5 \<le> x" and "x < 40"
  shows "5 \<le> float64_round x \<and> float64_round x \<le> 40"
proof -
  consider "x < 8" | "8 \<le> x" "x < 16" | "16 \<le> x" "x < 32" | "32 \<le> x"
    by linarith
  then show ?thesis
  proof cases
    case 1
    then show ?thesis
      using float64_round_between [of 2 x "5 * 2 ^ 50" "2 ^ 53"] assms by simp
  next
    case 2
    then show ?thesis
      using float64_round_between [of 3 x "2 ^ 52" "2 ^ 53"] assms by simp
  next
    case 3
    then show ?thesis
      using float64_round_between [of 4 x "2 ^ 52" "2 ^ 53"] assms by simp
  next
    case 4
    then show ?thesis
      using float64_round_between [of 5 x "2 ^ 52" "5 * 2 ^ 50"] assms by simp
  qed
qed

lemma round_half_even_example:
  "round_half_even (360287970189639679 / 64) = 5629499534213120"
  by (simp add: round_half_even_def Let_def)

text \<open>\<open>40 - 2 ^ -53\<close> is no float64: its neighbours are \<open>40 - 2 ^ -47\<close> and 40.\<close>

lemma float64_round_top: "float64_round (40 - 1 / 2 ^ 53) = 40"
proof -
  define x :: real where "x = 40 - 1 / 2 ^ 53"
  have x0: "x \<noteq> 0" by (simp add: x_def)
  have "ulp x = 2 powi (5 - 52)"
    by (rule ulp_binade) (simp_all add: x_def)
  then have u: "ulp x = 1 / 2 ^ 47" by simp
  have q: "x / (1 / 2 ^ 47) = 360287970189639679 / 64" by (simp add: x_def)
  have "float64_round x = of_int (round_half_even (x / ulp x)) * ulp x"
    using x0 by (simp add: float64_round_def)
  also have "\<dots> = 40"
    unfolding u q round_half_even_example by simp
  finally show ?thesis by (simp add: x_def)
qed

section \<open>The generator in closed form\<close>

lemma len_cities: "len cities = 8"
  by (simp add: len_def cities_def)

lemma len_conditions: "len conditions = 7"
  by (simp add: len_def conditions_def)

lemma advance_0: "advance 0 w = w"
  by (simp add: advance_def)

lemma Suc_numerals:
  "Suc (Suc (Suc n)) = 3 + n" "Suc (Suc (Suc (Suc n))) = 4 + n"
  "Suc (Suc (Suc (Suc (Suc n)))) = 5 + n" "Suc (Suc (Suc (Suc (Suc (Suc n))))) = 6 + n"
  by simp_all

lemma reading_literal_eq:
  "reading_literal (advance k w) = Inr (reading_at w k, advance (Suc k) w)"
  apply (simp add: reading_literal_def Intn_def Float64_def time_Now_def bind_result_def
      index_def len_cities len_conditions advance_def reading_at_def reading_events_def
      emit_def Let_def)
  apply (simp add: Suc_numerals ac_simps)
  done

declare fill.simps [simp del]

text \<open>
  The loop invariant: after \<open>i\<close> rounds the first \<open>i\<close> elements of the slice are the
  readings 0 to \<open>i - 1\<close>, and the world has moved on by \<open>i\<close> readings.
\<close>

lemma fill_eq:
  "length rs = n \<Longrightarrow> i \<le> n \<Longrightarrow>
   fill (int i) (int n) rs (advance i w) =
     Inr (take i rs @ map (reading_at w) [i..<n], advance n w)"
proof (induction "n - i" arbitrary: i rs)
  case 0
  then have "i = n" by simp
  then show ?case using 0 by (simp add: fill.simps)
next
  case (Suc d)
  then have lt: "i < n" by simp
  have step: "fill (int i) (int n) rs (advance i w) =
      fill (int (Suc i)) (int n) (rs[i := reading_at w i]) (advance (Suc i) w)"
    using lt Suc.prems by (subst fill.simps) (simp add: reading_literal_eq len_def add.commute)
  have "fill (int (Suc i)) (int n) (rs[i := reading_at w i]) (advance (Suc i) w) =
      Inr (take (Suc i) (rs[i := reading_at w i]) @ map (reading_at w) [Suc i..<n], advance n w)"
    using Suc by (intro Suc.hyps) auto
  moreover have "take (Suc i) (rs[i := reading_at w i]) = take i rs @ [reading_at w i]"
    using lt Suc.prems by (simp add: take_Suc_conv_app_nth)
  moreover have "[i..<n] = i # [Suc i..<n]"
    using lt by (simp add: upt_conv_Cons)
  ultimately show ?case using step by simp
qed

text \<open>The counts for which \<^verbatim>\<open>make\<close> returns a slice.\<close>

lemma generate_eq:
  "0 \<le> count \<Longrightarrow> count * sizeof_WeatherReading \<le> maxAlloc \<Longrightarrow>
   count \<le> 100 + int (heap_room w) \<Longrightarrow>
   generateDummyWeatherReadings count w =
     Inr (map (reading_at w) [0..<nat count], advance (nat count) w)"
  using fill_eq [of "replicate (nat count) zero_WeatherReading" "nat count" 0 w]
  by (simp add: generateDummyWeatherReadings_def make_WeatherReadings_def bind_result_def
      advance_0)

lemma generate_small:
  "0 \<le> count \<Longrightarrow> count \<le> 100 \<Longrightarrow>
   generateDummyWeatherReadings count w =
     Inr (map (reading_at w) [0..<nat count], advance (nat count) w)"
  by (rule generate_eq) (simp_all add: sizeof_WeatherReading_def maxAlloc_def)

lemma generate_Inr:
  assumes "generateDummyWeatherReadings count w = Inr (rs, w')"
  shows "0 \<le> count \<and> rs = map (reading_at w) [0..<nat count] \<and> w' = advance (nat count) w"
proof -
  have ok: "0 \<le> count \<and> count * sizeof_WeatherReading \<le> maxAlloc \<and>
            count \<le> 100 + int (heap_room w)"
    using assms
    by (auto simp: generateDummyWeatherReadings_def make_WeatherReadings_def bind_result_def
        split: if_splits)
  then show ?thesis using assms by (simp add: generate_eq)
qed

lemma generate_fails:
  "count < 0 \<or> maxAlloc < count * sizeof_WeatherReading \<Longrightarrow>
   generateDummyWeatherReadings count w = Inl MakeSliceLenOutOfRange"
  "0 \<le> count \<Longrightarrow> count * sizeof_WeatherReading \<le> maxAlloc \<Longrightarrow>
   100 + int (heap_room w) < count \<Longrightarrow>
   generateDummyWeatherReadings count w = Inl OutOfMemory"
  by (auto simp: generateDummyWeatherReadings_def make_WeatherReadings_def bind_result_def)

lemma new_events_advance:
  "new_events w (advance k w) = concat (map (reading_events w) [0..<k])"
  by (simp add: new_events_def advance_def)

lemma reading_at_trace: "reading_at (w\<lparr>trace := t\<rparr>) = reading_at w"
  by (rule ext) (simp add: reading_at_def)

lemma reading_events_trace: "reading_events (w\<lparr>trace := t\<rparr>) = reading_events w"
  by (rule ext) (simp add: reading_events_def)

lemma intn_draws_append: "intn_draws (xs @ ys) = intn_draws xs @ intn_draws ys"
  by (induction xs rule: intn_draws.induct) simp_all

lemma intn_draws_readings:
  "(n, v) \<in> set (intn_draws (concat (map (reading_events w) ks))) \<Longrightarrow> 0 \<le> v \<and> v < n"
  by (induction ks) (auto simp: intn_draws_append reading_events_def)

section \<open>The claims about the generator\<close>

text \<open>
  Claim C9, as the code has it. For every count of at least 0 for which \<^verbatim>\<open>make\<close> returns
  a slice (the slice takes at most \<^verbatim>\<open>maxAlloc\<close> bytes and the heap has room for it; every
  count up to 100 is such a count), \<^verbatim>\<open>generateDummyWeatherReadings\<close> returns (no index out
  of range, no invalid argument of \<^verbatim>\<open>Intn\<close>) a slice of exactly \<open>count\<close> readings, the empty
  slice for the count 0. Every draw from the random source lies below its bound, there
  are 8 cities and 7 conditions, and an index below 8 (below 7) is inside the slice of
  cities (of conditions). For a negative count and for a count whose slice would take
  more than \<^verbatim>\<open>maxAlloc\<close> bytes \<^verbatim>\<open>make\<close> panics, and for a count the heap has no room for the
  program ends.
\<close>

theorem generateDummyWeatherReadings_returns:
  "(0 \<le> count \<and> count * sizeof_WeatherReading \<le> maxAlloc \<and> count \<le> 100 + int (heap_room w) \<longrightarrow>
     (\<exists>rs w'. generateDummyWeatherReadings count w = Inr (rs, w') \<and>
        len rs = count \<and>
        (count = 0 \<longrightarrow> rs = []) \<and>
        (\<forall>(n, v) \<in> set (intn_draws (new_events w w')). 0 \<le> v \<and> v < n))) \<and>
   (0 \<le> count \<and> count \<le> 100 \<longrightarrow>
     (\<exists>rs w'. generateDummyWeatherReadings count w = Inr (rs, w') \<and> len rs = count)) \<and>
   (count < 0 \<or> maxAlloc < count * sizeof_WeatherReading \<longrightarrow>
     generateDummyWeatherReadings count w = Inl MakeSliceLenOutOfRange) \<and>
   (0 \<le> count \<and> count * sizeof_WeatherReading \<le> maxAlloc \<and> 100 + int (heap_room w) < count \<longrightarrow>
     generateDummyWeatherReadings count w = Inl OutOfMemory) \<and>
   len cities = 8 \<and> len conditions = 7 \<and>
   (\<forall>v. 0 \<le> v \<and> v < 8 \<longrightarrow> (\<exists>c. index cities v = Inr c)) \<and>
   (\<forall>v. 0 \<le> v \<and> v < 7 \<longrightarrow> (\<exists>c. index conditions v = Inr c))"
proof -
  have d: "\<forall>(n, v) \<in> set (intn_draws (new_events w (advance (nat count) w))). 0 \<le> v \<and> v < n"
    using intn_draws_readings [of _ _ w "[0..<nat count]"]
    by (auto simp: new_events_advance)
  have 1: "0 \<le> count \<and> count * sizeof_WeatherReading \<le> maxAlloc \<and>
           count \<le> 100 + int (heap_room w) \<longrightarrow>
     (\<exists>rs w'. generateDummyWeatherReadings count w = Inr (rs, w') \<and>
        len rs = count \<and>
        (count = 0 \<longrightarrow> rs = []) \<and>
        (\<forall>(n, v) \<in> set (intn_draws (new_events w w')). 0 \<le> v \<and> v < n))"
    using d by (simp add: generate_eq len_def)
  have 2: "0 \<le> count \<and> count \<le> 100 \<longrightarrow>
     (\<exists>rs w'. generateDummyWeatherReadings count w = Inr (rs, w') \<and> len rs = count)"
    by (simp add: generate_small len_def)
  have 3: "count < 0 \<or> maxAlloc < count * sizeof_WeatherReading \<longrightarrow>
     generateDummyWeatherReadings count w = Inl MakeSliceLenOutOfRange"
    using generate_fails(1) by blast
  have 4: "0 \<le> count \<and> count * sizeof_WeatherReading \<le> maxAlloc \<and>
           100 + int (heap_room w) < count \<longrightarrow>
     generateDummyWeatherReadings count w = Inl OutOfMemory"
    using generate_fails(2) by blast
  have 5: "len cities = 8 \<and> len conditions = 7 \<and>
   (\<forall>v. 0 \<le> v \<and> v < 8 \<longrightarrow> (\<exists>c. index cities v = Inr c)) \<and>
   (\<forall>v. 0 \<le> v \<and> v < 7 \<longrightarrow> (\<exists>c. index conditions v = Inr c))"
    by (simp add: index_def len_cities len_conditions)
  show ?thesis using 1 2 3 4 5 by blast
qed

theorem generateDummyWeatherReadings_returns_witness:
  "(\<exists>rs w'. generateDummyWeatherReadings 3 (world_of (\<lambda>i. i)) = Inr (rs, w') \<and> len rs = 3) \<and>
   (\<exists>rs w'. generateDummyWeatherReadings 0 (world_of (\<lambda>i. i)) = Inr (rs, w') \<and> rs = []) \<and>
   generateDummyWeatherReadings (- 1) (world_of (\<lambda>i. i)) = Inl MakeSliceLenOutOfRange \<and>
   generateDummyWeatherReadings 101 (world_of (\<lambda>i. i)) = Inl OutOfMemory"
proof -
  let ?w = "world_of (\<lambda>i. i)"
  have h: "heap_room ?w = 0" by (simp add: world_of_def)
  have a: "(0::int) \<le> 3 \<and> 3 * sizeof_WeatherReading \<le> maxAlloc \<and> 3 \<le> 100 + int (heap_room ?w)"
    by (simp add: h sizeof_WeatherReading_def maxAlloc_def)
  have b: "(0::int) \<le> 0 \<and> 0 * sizeof_WeatherReading \<le> maxAlloc \<and> 0 \<le> 100 + int (heap_room ?w)"
    by (simp add: h sizeof_WeatherReading_def maxAlloc_def)
  have c: "(- 1 :: int) < 0 \<or> maxAlloc < - 1 * sizeof_WeatherReading" by simp
  have d: "(0::int) \<le> 101 \<and> 101 * sizeof_WeatherReading \<le> maxAlloc \<and>
           100 + int (heap_room ?w) < 101"
    by (simp add: h sizeof_WeatherReading_def maxAlloc_def)
  have 1: "\<exists>rs w'. generateDummyWeatherReadings 3 ?w = Inr (rs, w') \<and> len rs = 3"
    using generateDummyWeatherReadings_returns [of 3 ?w] a by blast
  have 2: "\<exists>rs w'. generateDummyWeatherReadings 0 ?w = Inr (rs, w') \<and> rs = []"
    using generateDummyWeatherReadings_returns [of 0 ?w] b by blast
  have 3: "generateDummyWeatherReadings (- 1) ?w = Inl MakeSliceLenOutOfRange"
    using generateDummyWeatherReadings_returns [of "- 1" ?w] c by blast
  have 4: "generateDummyWeatherReadings 101 ?w = Inl OutOfMemory"
    using generateDummyWeatherReadings_returns [of 101 ?w] d by blast
  show ?thesis using 1 2 3 4 by simp
qed

text \<open>
  Claim C9 as stated fails: for the count \<open>2 ^ 62\<close> the slice would take more than
  \<^verbatim>\<open>maxAlloc\<close> bytes, and \<^verbatim>\<open>make\<close> panics.
\<close>

theorem make_panics_on_large_count:
  "generateDummyWeatherReadings (2 ^ 62) (world_of (\<lambda>i. 0)) = Inl MakeSliceLenOutOfRange"
  by (simp add: generateDummyWeatherReadings_def make_WeatherReadings_def bind_result_def
      maxAlloc_def sizeof_WeatherReading_def)

lemma unit_fraction: "0 \<le> real (x mod 2 ^ 53) / 2 ^ 53 \<and> real (x mod 2 ^ 53) / 2 ^ 53 < 1"
proof -
  have "x mod 2 ^ 53 < 2 ^ 53" by simp
  then have "real (x mod 2 ^ 53) < 2 ^ 53"
    by (metis of_nat_less_iff of_nat_numeral of_nat_power)
  then show ?thesis by simp
qed

lemma temperature_range:
  "5 \<le> float64_add (real (r mod 35 + 5)) (real (x mod 2 ^ 53) / 2 ^ 53) \<and>
   float64_add (real (r mod 35 + 5)) (real (x mod 2 ^ 53) / 2 ^ 53) \<le> 40"
proof -
  have "r mod 35 \<le> 34" by simp
  then have "real (r mod 35) \<le> 34" by (metis of_nat_le_iff of_nat_numeral)
  then have "5 \<le> real (r mod 35 + 5) + real (x mod 2 ^ 53) / 2 ^ 53 \<and>
             real (r mod 35 + 5) + real (x mod 2 ^ 53) / 2 ^ 53 < 40"
    using unit_fraction [of x] by simp
  then show ?thesis
    unfolding float64_add_def by (intro float64_round_range) simp_all
qed

lemma reading_at_ranges:
  "5 \<le> Temperature (reading_at w k) \<and> Temperature (reading_at w k) \<le> 40 \<and>
   20 \<le> Humidity (reading_at w k) \<and> Humidity (reading_at w k) \<le> 99 \<and>
   City (reading_at w k) \<in> set cities \<and> Condition (reading_at w k) \<in> set conditions"
proof -
  have "rng w (6 * k + 4) mod 80 \<le> 79" by simp
  then have h: "int (rng w (6 * k + 4) mod 80) \<le> 79" by linarith
  have c: "cities ! (rng w (6 * k) mod 8) \<in> set cities"
    by (rule nth_mem) (simp add: cities_def)
  have d: "conditions ! (rng w (6 * k + 5) mod 7) \<in> set conditions"
    by (rule nth_mem) (simp add: conditions_def)
  show ?thesis
    using temperature_range [of "rng w (6 * k + 2)" "rng w (6 * k + 3)"] h c d
    by (simp add: reading_at_def)
qed

text \<open>
  Claim C6, as the code has it. Every reading \<^verbatim>\<open>generateDummyWeatherReadings\<close> produces,
  for any count and any outcome of the random source, has its temperature in the closed
  interval from 5.0 to 40.0, its humidity an integer from 20 to 99, its city one of the 8
  cities and its condition one of the 7 conditions. The float64 sum of the integer part
  and the fraction is rounded, so the upper bound 40.0 is not excluded. The generator
  does produce \<open>count\<close> readings for every count from 0 up to what \<^verbatim>\<open>make\<close> can allocate, in
  particular up to 100.
\<close>

theorem generated_reading_ranges:
  "(\<forall>rs w'. generateDummyWeatherReadings count w = Inr (rs, w') \<longrightarrow>
     (\<forall>r \<in> set rs.
        5 \<le> Temperature r \<and> Temperature r \<le> 40 \<and>
        20 \<le> Humidity r \<and> Humidity r \<le> 99 \<and>
        City r \<in> {''New York'', ''London'', ''Paris'', ''Tokyo'', ''Sydney'', ''Lagos'',
                  ''Dubai'', ''Rio''} \<and>
        Condition r \<in> {''Sunny'', ''Partly Cloudy'', ''Cloudy'', ''Rainy'', ''Stormy'',
                       ''Foggy'', ''Snowy''})) \<and>
   (0 \<le> count \<and> count * sizeof_WeatherReading \<le> maxAlloc \<and> count \<le> 100 + int (heap_room w) \<longrightarrow>
     (\<exists>rs w'. generateDummyWeatherReadings count w = Inr (rs, w') \<and> len rs = count)) \<and>
   (0 \<le> count \<and> count \<le> 100 \<longrightarrow>
     (\<exists>rs w'. generateDummyWeatherReadings count w = Inr (rs, w') \<and> len rs = count))"
proof -
  have sets: "set cities = {''New York'', ''London'', ''Paris'', ''Tokyo'', ''Sydney'', ''Lagos'',
                  ''Dubai'', ''Rio''}"
    "set conditions = {''Sunny'', ''Partly Cloudy'', ''Cloudy'', ''Rainy'', ''Stormy'',
                       ''Foggy'', ''Snowy''}"
    by (simp_all add: cities_def conditions_def)
  have 1: "\<forall>rs w'. generateDummyWeatherReadings count w = Inr (rs, w') \<longrightarrow>
     (\<forall>r \<in> set rs.
        5 \<le> Temperature r \<and> Temperature r \<le> 40 \<and>
        20 \<le> Humidity r \<and> Humidity r \<le> 99 \<and>
        City r \<in> set cities \<and> Condition r \<in> set conditions)"
  proof (intro allI impI)
    fix rs w'
    assume "generateDummyWeatherReadings count w = Inr (rs, w')"
    then have "rs = map (reading_at w) [0..<nat count]"
      using generate_Inr by blast
    then show "\<forall>r \<in> set rs.
        5 \<le> Temperature r \<and> Temperature r \<le> 40 \<and>
        20 \<le> Humidity r \<and> Humidity r \<le> 99 \<and>
        City r \<in> set cities \<and> Condition r \<in> set conditions"
      using reading_at_ranges [of w] by auto
  qed
  have 2: "0 \<le> count \<and> count * sizeof_WeatherReading \<le> maxAlloc \<and>
           count \<le> 100 + int (heap_room w) \<longrightarrow>
     (\<exists>rs w'. generateDummyWeatherReadings count w = Inr (rs, w') \<and> len rs = count)"
    by (simp add: generate_eq len_def)
  have 3: "0 \<le> count \<and> count \<le> 100 \<longrightarrow>
     (\<exists>rs w'. generateDummyWeatherReadings count w = Inr (rs, w') \<and> len rs = count)"
    by (simp add: generate_small len_def)
  show ?thesis using 1 2 3 unfolding sets by blast
qed

theorem generated_reading_ranges_witness:
  "\<exists>rs w'. generateDummyWeatherReadings 1 (world_of hot_draws) = Inr (rs, w') \<and>
     length rs = 1 \<and> 5 \<le> Temperature (rs ! 0) \<and> Temperature (rs ! 0) \<le> 40 \<and>
     Humidity (rs ! 0) = 20 \<and> City (rs ! 0) = ''New York'' \<and> Condition (rs ! 0) = ''Sunny''"
proof -
  have "(0::int) \<le> 1 \<and> (1::int) \<le> 100" by simp
  then obtain rs w' where g: "generateDummyWeatherReadings 1 (world_of hot_draws) = Inr (rs, w')"
    using generated_reading_ranges [of 1 "world_of hot_draws"] by blast
  then have r: "\<forall>r \<in> set rs. 5 \<le> Temperature r \<and> Temperature r \<le> 40"
    using generated_reading_ranges [of 1 "world_of hot_draws"] by blast
  have rs: "rs = [reading_at (world_of hot_draws) 0]"
    using g by (simp add: generate_small)
  have "Humidity (rs ! 0) = 20 \<and> City (rs ! 0) = ''New York'' \<and> Condition (rs ! 0) = ''Sunny''"
    by (simp add: rs reading_at_def world_of_def hot_draws_def cities_def conditions_def)
  then show ?thesis using g r rs by simp
qed

text \<open>
  Claim C6 as stated fails. The temperature 40.0 occurs: with the integer part 39 and the fraction \<open>1 - 2 ^ -53\<close>
  the exact sum \<open>40 - 2 ^ -53\<close> is rounded to 40. The claim's half-open interval
  \<open>[5.0, 40.0)\<close> fails there.
\<close>

theorem temperature_reaches_40:
  "(case generateDummyWeatherReadings 1 (world_of hot_draws) of
      Inl e \<Rightarrow> None
    | Inr (rs, w') \<Rightarrow> Some (map Temperature rs)) = Some [40]"
proof -
  have "(39::real) + 9007199254740991 / 9007199254740992 = 40 - 1 / 2 ^ 53" by simp
  then have "float64_add 39 (9007199254740991 / 9007199254740992) = 40"
    by (simp only: float64_add_def float64_round_top)
  then show ?thesis
    by (simp add: generate_small reading_at_def world_of_def hot_draws_def)
qed


lemma reading_at_offset:
  "Timestamp (reading_at w k) - clock w k = (int (rng w (6 * k + 1) mod 24) - 12) * Hour"
  by (simp add: reading_at_def)

lemma offset_bounds:
  "- 12 * Hour \<le> (int (r mod 24) - 12) * Hour \<and> (int (r mod 24) - 12) * Hour \<le> 11 * Hour \<and>
   (int (r mod 24) - 12) * Hour \<noteq> 12 * Hour"
proof -
  have "r mod 24 \<le> 23" by simp
  then have "int (r mod 24) \<le> 23" by linarith
  then show ?thesis by (simp add: Hour_def)
qed

text \<open>
  Claim C7, as the code has it. The offset of the timestamp of reading \<open>i\<close> from the
  instant \<^verbatim>\<open>time.Now()\<close> returned for it is \<^verbatim>\<open>r.Intn(24) - 12\<close> hours: a whole number of
  hours from -12 to 11, so inside \<open>[-12h, +12h]\<close>, and each of these 24 values is the offset
  for some outcome of the random source. This holds of the readings of every call that
  returns, and a call returns \<open>count\<close> readings for every count from 0 up to what \<^verbatim>\<open>make\<close> can
  allocate, in particular up to 100.
\<close>

theorem timestamp_offsets:
  "(\<forall>rs w'. generateDummyWeatherReadings count w = Inr (rs, w') \<longrightarrow>
      len rs = count \<and>
      (\<forall>i < nat count.
         Timestamp (rs ! i) - clock w i = (int (rng w (6 * i + 1) mod 24) - 12) * Hour \<and>
         - 12 * Hour \<le> Timestamp (rs ! i) - clock w i \<and>
         Timestamp (rs ! i) - clock w i \<le> 11 * Hour)) \<and>
   (0 \<le> count \<and> count * sizeof_WeatherReading \<le> maxAlloc \<and> count \<le> 100 + int (heap_room w) \<longrightarrow>
      (\<exists>rs w'. generateDummyWeatherReadings count w = Inr (rs, w'))) \<and>
   (0 \<le> count \<and> count \<le> 100 \<longrightarrow>
      (\<exists>rs w'. generateDummyWeatherReadings count w = Inr (rs, w'))) \<and>
   (\<forall>h. - 12 \<le> h \<and> h \<le> 11 \<longrightarrow>
      (\<exists>v rs v'. generateDummyWeatherReadings 1 v = Inr (rs, v') \<and>
         Timestamp (rs ! 0) - clock v 0 = h * Hour))"
proof (intro conjI)
  show "\<forall>rs w'. generateDummyWeatherReadings count w = Inr (rs, w') \<longrightarrow>
      len rs = count \<and>
      (\<forall>i < nat count.
         Timestamp (rs ! i) - clock w i = (int (rng w (6 * i + 1) mod 24) - 12) * Hour \<and>
         - 12 * Hour \<le> Timestamp (rs ! i) - clock w i \<and>
         Timestamp (rs ! i) - clock w i \<le> 11 * Hour)"
  proof (intro allI impI)
    fix rs w'
    assume "generateDummyWeatherReadings count w = Inr (rs, w')"
    then have "0 \<le> count \<and> rs = map (reading_at w) [0..<nat count]"
      using generate_Inr by blast
    then show "len rs = count \<and>
      (\<forall>i < nat count.
         Timestamp (rs ! i) - clock w i = (int (rng w (6 * i + 1) mod 24) - 12) * Hour \<and>
         - 12 * Hour \<le> Timestamp (rs ! i) - clock w i \<and>
         Timestamp (rs ! i) - clock w i \<le> 11 * Hour)"
      using offset_bounds by (simp add: len_def reading_at_offset)
  qed
next
  show "0 \<le> count \<and> count * sizeof_WeatherReading \<le> maxAlloc \<and>
        count \<le> 100 + int (heap_room w) \<longrightarrow>
      (\<exists>rs w'. generateDummyWeatherReadings count w = Inr (rs, w'))"
    by (simp add: generate_eq)
next
  show "0 \<le> count \<and> count \<le> 100 \<longrightarrow>
      (\<exists>rs w'. generateDummyWeatherReadings count w = Inr (rs, w'))"
    by (simp add: generate_small)
next
  show "\<forall>h. - 12 \<le> h \<and> h \<le> 11 \<longrightarrow>
      (\<exists>v rs v'. generateDummyWeatherReadings 1 v = Inr (rs, v') \<and>
         Timestamp (rs ! 0) - clock v 0 = h * Hour)"
  proof (intro allI impI)
    fix h :: int
    assume h: "- 12 \<le> h \<and> h \<le> 11"
    let ?v = "world_of (\<lambda>i. nat (h + 12))"
    have "nat (h + 12) < 24" using h by linarith
    then have "nat (h + 12) mod 24 = nat (h + 12)" by (rule mod_less)
    then have "int (nat (h + 12) mod 24) - 12 = h" using h by simp
    then have "Timestamp (reading_at ?v 0) - clock ?v 0 = h * Hour"
      using reading_at_offset [of ?v 0] by (simp add: world_of_def)
    then show "\<exists>v rs v'. generateDummyWeatherReadings 1 v = Inr (rs, v') \<and>
         Timestamp (rs ! 0) - clock v 0 = h * Hour"
      by (intro exI [of _ ?v]) (simp add: generate_small)
  qed
qed

theorem timestamp_offsets_witness:
  "\<exists>rs w'. generateDummyWeatherReadings 2 (world_of (\<lambda>i. i)) = Inr (rs, w') \<and> len rs = 2 \<and>
      Timestamp (rs ! 0) = - 11 * Hour \<and> Timestamp (rs ! 1) = - 5 * Hour"
proof -
  have "(0::int) \<le> 2 \<and> (2::int) \<le> 100" by simp
  then obtain rs w' where g: "generateDummyWeatherReadings 2 (world_of (\<lambda>i. i)) = Inr (rs, w')"
    using timestamp_offsets [of 2 "world_of (\<lambda>i. i)"] by blast
  then have "len rs = 2 \<and>
      (\<forall>i < nat 2. Timestamp (rs ! i) - clock (world_of (\<lambda>i. i)) i =
              (int (rng (world_of (\<lambda>i. i)) (6 * i + 1) mod 24) - 12) * Hour \<and>
         - 12 * Hour \<le> Timestamp (rs ! i) - clock (world_of (\<lambda>i. i)) i \<and>
         Timestamp (rs ! i) - clock (world_of (\<lambda>i. i)) i \<le> 11 * Hour)"
    using timestamp_offsets [of 2 "world_of (\<lambda>i. i)"] by blast
  then have l: "len rs = 2"
    and t: "\<forall>i < nat 2. Timestamp (rs ! i) - clock (world_of (\<lambda>i. i)) i =
              (int (rng (world_of (\<lambda>i. i)) (6 * i + 1) mod 24) - 12) * Hour"
    by simp_all
  from t have "Timestamp (rs ! 0) - clock (world_of (\<lambda>i. i)) 0 =
              (int (rng (world_of (\<lambda>i. i)) (6 * 0 + 1) mod 24) - 12) * Hour"
    by simp
  moreover from t have "Timestamp (rs ! 1) - clock (world_of (\<lambda>i. i)) 1 =
              (int (rng (world_of (\<lambda>i. i)) (6 * 1 + 1) mod 24) - 12) * Hour"
    by simp
  ultimately show ?thesis using g l by (simp add: world_of_def)
qed

text \<open>
  Claim C7 as stated fails: no reading of any call, for any outcome of the random
  source, has the offset +12h.
\<close>

theorem offset_never_plus_12h:
  "\<not> (\<exists>count w rs w' i. 0 \<le> count \<and> generateDummyWeatherReadings count w = Inr (rs, w') \<and>
        i < length rs \<and> Timestamp (rs ! i) - clock w i = 12 * Hour)"
proof
  assume "\<exists>count w rs w' i. 0 \<le> count \<and> generateDummyWeatherReadings count w = Inr (rs, w') \<and>
        i < length rs \<and> Timestamp (rs ! i) - clock w i = 12 * Hour"
  then obtain count w rs w' i where nn: "0 \<le> count"
    and g: "generateDummyWeatherReadings count w = Inr (rs, w')"
    and i: "i < length rs" and t: "Timestamp (rs ! i) - clock w i = 12 * Hour"
    by blast
  from g have rs: "rs = map (reading_at w) [0..<nat count]" using generate_Inr by blast
  with i have "rs ! i = reading_at w i" by simp
  with t have "(int (rng w (6 * i + 1) mod 24) - 12) * Hour = 12 * Hour"
    by (simp add: reading_at_offset)
  then show False using offset_bounds [of "rng w (6 * i + 1)"] by simp
qed


section \<open>The claim about the status code\<close>

lemmas http_status_defs =
  StatusOK_def StatusCreated_def StatusAccepted_def StatusNoContent_def
  StatusBadRequest_def StatusUnauthorized_def StatusForbidden_def StatusNotFound_def
  StatusMethodNotAllowed_def StatusInternalServerError_def StatusNotImplemented_def
  StatusBadGateway_def StatusServiceUnavailable_def StatusGatewayTimeout_def

lemma len_statusCodes:
  "len statusCodes2xx = 4" "len statusCodes4xx = 5" "len statusCodes5xx = 5"
  by (simp_all add: len_def statusCodes2xx_def statusCodes4xx_def statusCodes5xx_def)

lemma getResponseStatusCode_eq:
  "getResponseStatusCode w =
     Inr (pick_status (rng w 0) (rng w 1),
          w\<lparr>rng := \<lambda>i. rng w (i + 2),
            trace := trace w @ status_events (rng w 0) (rng w 1)\<rparr>)"
  by (simp add: getResponseStatusCode_def Intn_def bind_result_def index_def
      len_statusCodes pick_status_def status_events_def emit_def Let_def)

lemma nth_2xx: "statusCodes2xx ! (j mod 4) \<in> {200, 201, 202, 204}"
proof -
  have "j mod 4 < 4" by simp
  then consider "j mod 4 = 0" | "j mod 4 = 1" | "j mod 4 = 2" | "j mod 4 = 3" by linarith
  then show ?thesis
    by cases (simp_all add: statusCodes2xx_def http_status_defs)
qed

lemma nth_4xx: "statusCodes4xx ! (j mod 5) \<in> {400, 401, 404, 403, 405}"
proof -
  have "j mod 5 < 5" by simp
  then consider "j mod 5 = 0" | "j mod 5 = 1" | "j mod 5 = 2" | "j mod 5 = 3" | "j mod 5 = 4"
    by linarith
  then show ?thesis
    by cases (simp_all add: statusCodes4xx_def http_status_defs)
qed

lemma nth_5xx: "statusCodes5xx ! (j mod 5) \<in> {500, 501, 502, 503, 504}"
proof -
  have "j mod 5 < 5" by simp
  then consider "j mod 5 = 0" | "j mod 5 = 1" | "j mod 5 = 2" | "j mod 5 = 3" | "j mod 5 = 4"
    by linarith
  then show ?thesis
    by cases (simp_all add: statusCodes5xx_def http_status_defs)
qed

lemma pick_status_class:
  "(pick_status n j \<in> {200, 201, 202, 204} \<longleftrightarrow> n mod 100 < 70) \<and>
   (pick_status n j \<in> {400, 401, 404, 403, 405} \<longleftrightarrow> 70 \<le> n mod 100 \<and> n mod 100 < 85) \<and>
   (pick_status n j \<in> {500, 501, 502, 503, 504} \<longleftrightarrow> 85 \<le> n mod 100)"
proof -
  define c where "c = pick_status n j"
  consider "n mod 100 < 70" | "70 \<le> n mod 100" "n mod 100 < 85" | "85 \<le> n mod 100"
    by linarith
  then have "(c \<in> {200, 201, 202, 204} \<longleftrightarrow> n mod 100 < 70) \<and>
   (c \<in> {400, 401, 404, 403, 405} \<longleftrightarrow> 70 \<le> n mod 100 \<and> n mod 100 < 85) \<and>
   (c \<in> {500, 501, 502, 503, 504} \<longleftrightarrow> 85 \<le> n mod 100)"
  proof cases
    case 1
    then have "c \<in> {200, 201, 202, 204}"
      using nth_2xx [of j] by (simp add: c_def pick_status_def)
    with 1 show ?thesis by auto
  next
    case 2
    then have "c \<in> {400, 401, 404, 403, 405}"
      using nth_4xx [of j] by (simp add: c_def pick_status_def)
    with 2 show ?thesis by auto
  next
    case 3
    then have "c \<in> {500, 501, 502, 503, 504}"
      using nth_5xx [of j] by (simp add: c_def pick_status_def)
    with 3 show ?thesis by auto
  qed
  then show ?thesis by (simp only: c_def)
qed

lemma status_code_at:
  "(\<exists>c v'. getResponseStatusCode (w\<lparr>rng := (rng w)(0 := n)\<rparr>) = Inr (c, v') \<and> c \<in> S) \<longleftrightarrow>
   pick_status n (rng w 1) \<in> S"
  by (simp add: getResponseStatusCode_eq)

lemma bucket_counts:
  "card {n::nat. n < 100 \<and> n mod 100 < 70} = 70"
  "card {n::nat. n < 100 \<and> 70 \<le> n mod 100 \<and> n mod 100 < 85} = 15"
  "card {n::nat. n < 100 \<and> 85 \<le> n mod 100} = 15"
proof -
  have "{n::nat. n < 100 \<and> n mod 100 < 70} = {0..<70}" by auto
  then show "card {n::nat. n < 100 \<and> n mod 100 < 70} = 70" by simp
  have "{n::nat. n < 100 \<and> 70 \<le> n mod 100 \<and> n mod 100 < 85} = {70..<85}" by auto
  then show "card {n::nat. n < 100 \<and> 70 \<le> n mod 100 \<and> n mod 100 < 85} = 15" by simp
  have "{n::nat. n < 100 \<and> 85 \<le> n mod 100} = {85..<100}" by auto
  then show "card {n::nat. n < 100 \<and> 85 \<le> n mod 100} = 15" by simp
qed

text \<open>
  Claim C3. \<^verbatim>\<open>getResponseStatusCode\<close> always returns. With \<open>n\<close> the outcome of
  \<^verbatim>\<open>r.Intn(100)\<close>, the code returned is one of 200, 201, 202, 204 exactly when \<open>n < 70\<close>, one
  of 400, 401, 404, 403, 405 exactly when \<open>70 \<le> n < 85\<close>, and one of 500, 501, 502, 503, 504
  exactly when \<open>85 \<le> n < 100\<close>; no other code is returned. The code is the element of its
  bucket at the index the second draw gives (\<^verbatim>\<open>Intn(4)\<close> or \<^verbatim>\<open>Intn(5)\<close>), and these two are
  the only draws. Of the 100 values of \<open>n\<close>, 70 give a 2xx code, 15 a 4xx code and 15 a 5xx
  code.
\<close>

theorem getResponseStatusCode_buckets:
  "\<exists>c w'. getResponseStatusCode w = Inr (c, w') \<and>
     (c \<in> {200, 201, 202, 204} \<longleftrightarrow> rng w 0 mod 100 < 70) \<and>
     (c \<in> {400, 401, 404, 403, 405} \<longleftrightarrow> 70 \<le> rng w 0 mod 100 \<and> rng w 0 mod 100 < 85) \<and>
     (c \<in> {500, 501, 502, 503, 504} \<longleftrightarrow> 85 \<le> rng w 0 mod 100 \<and> rng w 0 mod 100 < 100) \<and>
     c \<in> {200, 201, 202, 204, 400, 401, 404, 403, 405, 500, 501, 502, 503, 504} \<and>
     c = (if rng w 0 mod 100 < 70 then [200, 201, 202, 204] ! (rng w 1 mod 4)
          else if rng w 0 mod 100 < 85 then [400, 401, 404, 403, 405] ! (rng w 1 mod 5)
          else [500, 501, 502, 503, 504] ! (rng w 1 mod 5)) \<and>
     intn_draws (new_events w w') =
       [(100, int (rng w 0 mod 100)),
        if rng w 0 mod 100 < 70 then (4, int (rng w 1 mod 4)) else (5, int (rng w 1 mod 5))] \<and>
     card {n. n < 100 \<and> (\<exists>c v'. getResponseStatusCode (w\<lparr>rng := (rng w)(0 := n)\<rparr>) = Inr (c, v')
                              \<and> c \<in> {200, 201, 202, 204})} = 70 \<and>
     card {n. n < 100 \<and> (\<exists>c v'. getResponseStatusCode (w\<lparr>rng := (rng w)(0 := n)\<rparr>) = Inr (c, v')
                              \<and> c \<in> {400, 401, 404, 403, 405})} = 15 \<and>
     card {n. n < 100 \<and> (\<exists>c v'. getResponseStatusCode (w\<lparr>rng := (rng w)(0 := n)\<rparr>) = Inr (c, v')
                              \<and> c \<in> {500, 501, 502, 503, 504})} = 15"
proof -
  let ?c = "pick_status (rng w 0) (rng w 1)"
  note cls = pick_status_class [of "rng w 0" "rng w 1"]
  have 1: "(?c \<in> {200, 201, 202, 204} \<longleftrightarrow> rng w 0 mod 100 < 70)"
    and 2: "(?c \<in> {400, 401, 404, 403, 405} \<longleftrightarrow> 70 \<le> rng w 0 mod 100 \<and> rng w 0 mod 100 < 85)"
    and 3: "(?c \<in> {500, 501, 502, 503, 504} \<longleftrightarrow> 85 \<le> rng w 0 mod 100 \<and> rng w 0 mod 100 < 100)"
    using cls by simp_all
  have "?c \<in> {200, 201, 202, 204} \<or> ?c \<in> {400, 401, 404, 403, 405} \<or> ?c \<in> {500, 501, 502, 503, 504}"
    using 1 2 3 by linarith
  then have 4: "?c \<in> {200, 201, 202, 204, 400, 401, 404, 403, 405, 500, 501, 502, 503, 504}"
    by auto
  have 5: "?c = (if rng w 0 mod 100 < 70 then [200, 201, 202, 204] ! (rng w 1 mod 4)
          else if rng w 0 mod 100 < 85 then [400, 401, 404, 403, 405] ! (rng w 1 mod 5)
          else [500, 501, 502, 503, 504] ! (rng w 1 mod 5))"
    by (simp add: pick_status_def statusCodes2xx_def statusCodes4xx_def statusCodes5xx_def
        http_status_defs)
  have 6: "intn_draws (status_events (rng w 0) (rng w 1)) =
       [(100, int (rng w 0 mod 100)),
        if rng w 0 mod 100 < 70 then (4, int (rng w 1 mod 4)) else (5, int (rng w 1 mod 5))]"
    by (simp add: status_events_def)
  have 7: "card {n. n < 100 \<and> pick_status n (rng w 1) \<in> {200, 201, 202, 204}} = 70"
    "card {n. n < 100 \<and> pick_status n (rng w 1) \<in> {400, 401, 404, 403, 405}} = 15"
    "card {n. n < 100 \<and> pick_status n (rng w 1) \<in> {500, 501, 502, 503, 504}} = 15"
    using bucket_counts by (simp_all only: pick_status_class)
  show ?thesis
    unfolding status_code_at getResponseStatusCode_eq
    using 1 2 3 4 5 6 7 by (simp add: new_events_def)
qed

theorem getResponseStatusCode_buckets_witness:
  "(\<exists>w'. getResponseStatusCode (world_of (\<lambda>i. 70)) = Inr (400, w')) \<and>
   (\<exists>w'. getResponseStatusCode (world_of (\<lambda>i. 69)) = Inr (201, w')) \<and>
   (\<exists>w'. getResponseStatusCode (world_of (\<lambda>i. 99)) = Inr (504, w'))"
  using getResponseStatusCode_buckets [of "world_of (\<lambda>i. 70)"]
    getResponseStatusCode_buckets [of "world_of (\<lambda>i. 69)"]
    getResponseStatusCode_buckets [of "world_of (\<lambda>i. 99)"]
  by (auto simp: world_of_def)


section \<open>The handler in closed form\<close>

lemma status_codes_written_append:
  "status_codes_written (xs @ ys) = status_codes_written xs @ status_codes_written ys"
  by (induction xs rule: status_codes_written.induct) simp_all

lemma encoded_append: "encoded (xs @ ys) = encoded xs @ encoded ys"
  by (induction xs rule: encoded.induct) simp_all

lemma sleeper_calls_append: "sleeper_calls (xs @ ys) = sleeper_calls xs @ sleeper_calls ys"
  by (induction xs rule: sleeper_calls.induct) simp_all

lemma readings_silent:
  "status_codes_written (concat (map (reading_events g) ks)) = []"
  "encoded (concat (map (reading_events g) ks)) = []"
  "sleeper_calls (concat (map (reading_events g) ks)) = []"
  by (induction ks)
    (simp_all add: status_codes_written_append encoded_append sleeper_calls_append
      reading_events_def)

lemma size_events_silent:
  "status_codes_written (size_events x) = []" "encoded (size_events x) = []"
  "sleeper_calls (size_events x) = []" "intn_draws (size_events x) = []"
  by (simp_all add: size_events_def split: sum.splits)

lemma sleep_events_silent:
  "status_codes_written (sleep_events s d) = []" "encoded (sleep_events s d) = []"
  "sleeper_calls (sleep_events s d) = []" "intn_draws (sleep_events s d) = []"
  by (cases s; simp add: sleep_events_def)+

lemma status_events_silent:
  "status_codes_written (status_events a b) = []" "encoded (status_events a b) = []"
  "sleeper_calls (status_events a b) = []"
  by (simp_all add: status_events_def)

lemmas silent =
  status_codes_written_append encoded_append sleeper_calls_append readings_silent
  size_events_silent sleep_events_silent status_events_silent

lemma handler_status:
  "status_codes_written (handler_events s x w) = [pick_status (rng w 1) (rng w 2)]"
  by (simp add: handler_events_def response_events_def Let_def silent)

lemma handler_sleeps:
  "sleeper_calls (handler_events s x w) = [(s, int (rng w 0 mod 5001) * Millisecond)]"
  by (simp add: handler_events_def response_events_def Let_def silent)

lemma handler_encoded:
  "encoded (handler_events s x w) =
     [if 200 \<le> pick_status (rng w 1) (rng w 2) \<and> pick_status (rng w 1) (rng w 2) < 300
      then \<lparr>Readings = Some (map (reading_at (w\<lparr>rng := \<lambda>i. rng w (i + 3)\<rparr>))
                                [0..<nat (spec_effective_size x)]),
            Message = ''Successfully retrieved '' @ Itoa (spec_effective_size x)
                        @ '' weather readings.''\<rparr>
      else \<lparr>Readings = None,
            Message = ''An error occurred with status code ''
                        @ Itoa (pick_status (rng w 1) (rng w 2))
                        @ ''. This is a dummy error for testing.''\<rparr>]"
  by (simp add: handler_events_def response_events_def Let_def silent)

lemma parse_size_eq:
  "parse_size sizeStr w =
     (spec_effective_size sizeStr, w\<lparr>trace := trace w @ size_events sizeStr\<rparr>)"
  by (auto simp: parse_size_def spec_effective_size_def size_events_def emit_def
      split: sum.splits)

lemma spec_effective_size_range:
  "10 \<le> spec_effective_size sizeStr \<and> spec_effective_size sizeStr \<le> 100"
  by (simp add: spec_effective_size_def split: sum.splits)

lemma Sleep_eq: "Sleep s d w = w\<lparr>trace := trace w @ sleep_events s d\<rparr>"
  by (cases s) (simp_all add: sleep_events_def emit_def)

lemma Suc3_eq_add_3: "Suc (Suc (Suc i)) = i + 3"
  by simp

lemma weatherHandler_eq:
  "\<exists>w'. weatherHandler s req w = Inr w' \<and>
        trace w' = trace w @ handler_events s (Get (URL_Query req) ''size'') w"
proof -
  let ?sz = "spec_effective_size (Get (URL_Query req) ''size'')"
  have nn: "0 \<le> ?sz" and le: "?sz \<le> 100"
    using spec_effective_size_range [of "Get (URL_Query req) ''size''"] by simp_all
  show ?thesis
    using nn
    by (simp add: weatherHandler_def parse_size_eq Intn_def bind_result_def Sleep_eq
        getResponseStatusCode_eq generate_small [OF nn le] emit_def Let_def handler_events_def
        response_events_def
        advance_def len_def numeral_2_eq_2 reading_at_trace reading_events_trace Suc3_eq_add_3)
qed

lemma weatherHandler_run:
  "\<exists>w'. weatherHandler s req w = Inr w' \<and>
        new_events w w' = handler_events s (Get (URL_Query req) ''size'') w"
  using weatherHandler_eq [of s req w] by (auto simp: new_events_def)


section \<open>The claims about the handler\<close>

declare FormatUint.simps [simp del]

lemma Get_request_with_size: "Get (URL_Query (request_with_size v)) ''size'' = v"
  by (simp add: Get_def request_with_size_def)

lemma Get_request_without_size: "Get (URL_Query request_without_size) ''size'' = []"
  by (simp add: Get_def request_without_size_def)

lemma Atoi_examples:
  "Atoi ''50'' = Inr 50" "Atoi ''100'' = Inr 100" "Atoi ''10'' = Inr 10"
  "Atoi ''5'' = Inr 5" "Atoi ''150'' = Inr 150" "Atoi ''abc'' = Inl ErrSyntax"
  "Atoi [] = Inl ErrSyntax" "Atoi ''-20'' = Inr (- 20)"
  by (simp_all add: Atoi_def is_digit_def)

lemma Itoa_examples: "Itoa 50 = ''50''" "Itoa 400 = ''400''" "Itoa 10 = ''10''"
  by (simp_all add: Itoa_def FormatUint.simps)

lemma pick_status_examples:
  "pick_status 0 0 = 200" "pick_status 70 70 = 400" "pick_status 99 99 = 504"
  by (simp_all add: pick_status_def statusCodes2xx_def statusCodes4xx_def statusCodes5xx_def
      http_status_defs)

text \<open>
  Claim C1. The handler returns for every sleeper, request and world, and writes one
  status code. When that code is in \<open>[200, 300)\<close>, the value it hands to the JSON encoder
  has an allocated \<^verbatim>\<open>Readings\<close> slice of exactly \<open>s\<close> elements, \<open>s\<close> being the effective size
  (between 10 and 100), and the message "Successfully retrieved N weather readings."
  with N the length of that slice; the body written is the object with the array of
  these readings under \<^verbatim>\<open>readings\<close> and the message under \<^verbatim>\<open>message\<close>.
\<close>

theorem weatherHandler_success_body:
  "\<exists>w' c. weatherHandler s req w = Inr w' \<and>
     status_codes_written (new_events w w') = [c] \<and>
     (200 \<le> c \<and> c < 300 \<longrightarrow>
       (\<exists>rs. encoded (new_events w w') =
               [\<lparr>Readings = Some rs,
                 Message = ''Successfully retrieved '' @ Itoa (len rs) @ '' weather readings.''\<rparr>] \<and>
             len rs = fst (parse_size (Get (URL_Query req) ''size'') w) \<and>
             10 \<le> len rs \<and> len rs \<le> 100 \<and>
             map encode_DataResponse (encoded (new_events w w')) =
               [JObject [(''readings'', JArray (map encode_WeatherReading rs)),
                         (''message'', JString (''Successfully retrieved '' @ Itoa (len rs)
                                                 @ '' weather readings.''))]]))"
proof -
  let ?x = "Get (URL_Query req) ''size''"
  obtain w' where run: "weatherHandler s req w = Inr w'"
    and ev: "new_events w w' = handler_events s ?x w"
    using weatherHandler_run by blast
  have sz: "10 \<le> spec_effective_size ?x \<and> spec_effective_size ?x \<le> 100"
    by (rule spec_effective_size_range)
  then have "len (map (reading_at (w\<lparr>rng := \<lambda>i. rng w (i + 3)\<rparr>))
                   [0..<nat (spec_effective_size ?x)]) = spec_effective_size ?x"
    by (simp add: len_def)
  then show ?thesis
    using run sz
    by (simp add: ev handler_status handler_encoded parse_size_eq encode_DataResponse_def)
qed

theorem weatherHandler_success_body_witness:
  "\<exists>w' rs. weatherHandler NoOpSleeper (request_with_size ''50'') (world_of (\<lambda>i. 0)) = Inr w' \<and>
     status_codes_written (new_events (world_of (\<lambda>i. 0)) w') = [200] \<and>
     encoded (new_events (world_of (\<lambda>i. 0)) w') =
       [\<lparr>Readings = Some rs, Message = ''Successfully retrieved 50 weather readings.''\<rparr>] \<and>
     len rs = 50"
proof -
  let ?w = "world_of (\<lambda>i. 0)"
  let ?req = "request_with_size ''50''"
  obtain w' c where run: "weatherHandler NoOpSleeper ?req ?w = Inr w'"
    and st: "status_codes_written (new_events ?w w') = [c]"
    and body: "200 \<le> c \<and> c < 300 \<longrightarrow>
       (\<exists>rs. encoded (new_events ?w w') =
               [\<lparr>Readings = Some rs,
                 Message = ''Successfully retrieved '' @ Itoa (len rs) @ '' weather readings.''\<rparr>] \<and>
             len rs = fst (parse_size (Get (URL_Query ?req) ''size'') ?w))"
    using weatherHandler_success_body [of NoOpSleeper ?req ?w] by blast
  have "status_codes_written (new_events ?w w') = [200]"
    using weatherHandler_run [of NoOpSleeper ?req ?w] run
    by (auto simp: handler_status world_of_def pick_status_examples)
  with st have c: "c = 200" by simp
  have "fst (parse_size (Get (URL_Query ?req) ''size'') ?w) = 50"
    by (simp add: Get_request_with_size parse_size_def Atoi_examples)
  with body c obtain rs where "encoded (new_events ?w w') =
               [\<lparr>Readings = Some rs,
                 Message = ''Successfully retrieved '' @ Itoa (len rs) @ '' weather readings.''\<rparr>]"
    and "len rs = 50"
    by auto
  then show ?thesis using run st c by (auto simp: Itoa_examples)
qed




text \<open>
  Claim C5, as the code has it. When the status code the handler writes is outside
  \<open>[200, 300)\<close>, the response it encodes has the nil \<^verbatim>\<open>Readings\<close> slice and the message
  "An error occurred with status code <code>. This is a dummy error for testing.", and the
  body written is the object with \<^verbatim>\<open>null\<close> under the key \<^verbatim>\<open>readings\<close> and the message under
  the key \<^verbatim>\<open>message\<close>.
\<close>

theorem weatherHandler_error_body:
  "\<exists>w' c. weatherHandler s req w = Inr w' \<and>
     status_codes_written (new_events w w') = [c] \<and>
     (\<not> (200 \<le> c \<and> c < 300) \<longrightarrow>
        encoded (new_events w w') =
          [\<lparr>Readings = None,
            Message = ''An error occurred with status code '' @ Itoa c
                        @ ''. This is a dummy error for testing.''\<rparr>] \<and>
        map encode_DataResponse (encoded (new_events w w')) =
          [JObject [(''readings'', JNull),
                    (''message'', JString (''An error occurred with status code '' @ Itoa c
                                            @ ''. This is a dummy error for testing.''))]])"
proof -
  let ?x = "Get (URL_Query req) ''size''"
  obtain w' where run: "weatherHandler s req w = Inr w'"
    and ev: "new_events w w' = handler_events s ?x w"
    using weatherHandler_run by blast
  show ?thesis
    using run by (simp add: ev handler_status handler_encoded encode_DataResponse_def)
qed

theorem weatherHandler_error_body_witness:
  "\<exists>w'. weatherHandler NoOpSleeper request_without_size (world_of (\<lambda>i. 70)) = Inr w' \<and>
     status_codes_written (new_events (world_of (\<lambda>i. 70)) w') = [400] \<and>
     encoded (new_events (world_of (\<lambda>i. 70)) w') =
       [\<lparr>Readings = None,
         Message = ''An error occurred with status code 400. This is a dummy error for testing.''\<rparr>]"
proof -
  let ?w = "world_of (\<lambda>i. 70)"
  let ?req = "request_without_size"
  obtain w' c where run: "weatherHandler NoOpSleeper ?req ?w = Inr w'"
    and st: "status_codes_written (new_events ?w w') = [c]"
    and body: "\<not> (200 \<le> c \<and> c < 300) \<longrightarrow>
        encoded (new_events ?w w') =
          [\<lparr>Readings = None,
            Message = ''An error occurred with status code '' @ Itoa c
                        @ ''. This is a dummy error for testing.''\<rparr>]"
    using weatherHandler_error_body [of NoOpSleeper ?req ?w] by (elim exE conjE) auto
  have "status_codes_written (new_events ?w w') = [400]"
    using weatherHandler_run [of NoOpSleeper ?req ?w] run
    by (auto simp: handler_status world_of_def pick_status_examples)
  with st have c: "c = 400" by simp
  then show ?thesis using run st body by (auto simp: Itoa_examples)
qed

text \<open>
  Claim C5 as stated fails: on the run with the status code 400 the body is not the
  object with the message alone; the key \<^verbatim>\<open>readings\<close> is written, with the value \<^verbatim>\<open>null\<close>.
\<close>

theorem error_body_keeps_readings_key:
  "(case weatherHandler NoOpSleeper request_without_size (world_of (\<lambda>i. 70)) of
      Inl e \<Rightarrow> None
    | Inr w' \<Rightarrow>
        Some (status_codes_written (new_events (world_of (\<lambda>i. 70)) w'),
              map encode_DataResponse (encoded (new_events (world_of (\<lambda>i. 70)) w')),
              map object_keys
                (map encode_DataResponse (encoded (new_events (world_of (\<lambda>i. 70)) w')))))
   = Some ([400],
           [JObject [(''readings'', JNull),
                     (''message'', JString ''An error occurred with status code 400. This is a dummy error for testing.'')]],
           [[''readings'', ''message'']])"
proof -
  let ?w = "world_of (\<lambda>i. 70)"
  obtain w' where run: "weatherHandler NoOpSleeper request_without_size ?w = Inr w'"
    and ev: "new_events ?w w' = handler_events NoOpSleeper [] ?w"
    using weatherHandler_run [of NoOpSleeper request_without_size ?w]
    by (auto simp: Get_request_without_size)
  have r: "rng ?w = (\<lambda>i. 70)"
    by (simp add: world_of_def)
  show ?thesis
    by (simp add: run ev handler_status handler_encoded r pick_status_examples
        encode_DataResponse_def Itoa_examples)
qed

text \<open>
  Claim C10. The body of every response has the key \<^verbatim>\<open>readings\<close> followed by the key
  \<^verbatim>\<open>message\<close>, whose value is never the empty string. When the status code is outside
  \<open>[200, 300)\<close> the \<^verbatim>\<open>Readings\<close> slice is nil and the value under \<^verbatim>\<open>readings\<close> is \<^verbatim>\<open>null\<close>. The
  encoder writes \<^verbatim>\<open>readings\<close> for every value of \<^verbatim>\<open>DataResponse\<close> (the tag has no
  \<^verbatim>\<open>omitempty\<close>), and \<^verbatim>\<open>message\<close> exactly when the message is not empty.
\<close>

theorem readings_key_always_present:
  "\<exists>w' c d. weatherHandler s req w = Inr w' \<and>
     status_codes_written (new_events w w') = [c] \<and>
     encoded (new_events w w') = [d] \<and>
     Message d \<noteq> [] \<and>
     object_keys (encode_DataResponse d) = [''readings'', ''message''] \<and>
     (\<not> (200 \<le> c \<and> c < 300) \<longrightarrow>
        Readings d = None \<and> object_get (encode_DataResponse d) ''readings'' = Some JNull) \<and>
     (\<forall>d'. ''readings'' \<in> set (object_keys (encode_DataResponse d')) \<and>
           (''message'' \<in> set (object_keys (encode_DataResponse d')) \<longleftrightarrow> Message d' \<noteq> []))"
proof -
  let ?x = "Get (URL_Query req) ''size''"
  obtain w' where run: "weatherHandler s req w = Inr w'"
    and ev: "new_events w w' = handler_events s ?x w"
    using weatherHandler_run by blast
  show ?thesis
    using run by (simp add: ev handler_status handler_encoded encode_DataResponse_def)
qed

theorem readings_key_always_present_witness:
  "\<exists>w' d. weatherHandler DefaultSleeper (request_with_size ''abc'') (world_of (\<lambda>i. 99)) = Inr w' \<and>
     status_codes_written (new_events (world_of (\<lambda>i. 99)) w') = [504] \<and>
     encoded (new_events (world_of (\<lambda>i. 99)) w') = [d] \<and>
     object_get (encode_DataResponse d) ''readings'' = Some JNull \<and>
     object_keys (encode_DataResponse d) = [''readings'', ''message'']"
proof -
  let ?w = "world_of (\<lambda>i. 99)"
  let ?req = "request_with_size ''abc''"
  obtain w' c d where run: "weatherHandler DefaultSleeper ?req ?w = Inr w'"
    and st: "status_codes_written (new_events ?w w') = [c]"
    and en: "encoded (new_events ?w w') = [d]"
    and keys: "object_keys (encode_DataResponse d) = [''readings'', ''message'']"
    and nul: "\<not> (200 \<le> c \<and> c < 300) \<longrightarrow>
        Readings d = None \<and> object_get (encode_DataResponse d) ''readings'' = Some JNull"
    using readings_key_always_present [of DefaultSleeper ?req ?w] by (elim exE conjE)
  have "status_codes_written (new_events ?w w') = [504]"
    using weatherHandler_run [of DefaultSleeper ?req ?w] run
    by (auto simp: handler_status world_of_def pick_status_examples)
  with st have c: "c = 504" by simp
  then show ?thesis using run st en keys nul by auto
qed


lemma delay_range:
  "0 \<le> int (r mod 5001) * Millisecond \<and> int (r mod 5001) * Millisecond \<le> 5000 * Millisecond"
proof -
  have "r mod 5001 \<le> 5000" by simp
  then have "int (r mod 5001) \<le> 5000" by linarith
  then show ?thesis by (simp add: Millisecond_def)
qed

lemma handler_events_order:
  "\<exists>pre mid post k j.
     handler_events s x w =
       pre @ [SleeperSleep s (int (rng w 0 mod 5001) * Millisecond)] @ mid
         @ [RandIntn 100 (int (rng w 1 mod 100)), RandIntn k j,
            WriteHeader (pick_status (rng w 1) (rng w 2))] @ post \<and>
     intn_draws pre = [(5001, int (rng w 0 mod 5001))] \<and>
     status_codes_written pre = [] \<and> sleeper_calls pre = [] \<and>
     intn_draws mid = [] \<and> status_codes_written mid = [] \<and> sleeper_calls mid = []"
proof -
  let ?d = "int (rng w 0 mod 5001) * Millisecond"
  let ?pre = "[HeaderSet ''Content-Type'' ''application/json''] @ size_events x
         @ [RandIntn 5001 (int (rng w 0 mod 5001)), LogDelay ?d]"
  have pre: "intn_draws ?pre = [(5001, int (rng w 0 mod 5001))] \<and>
     status_codes_written ?pre = [] \<and> sleeper_calls ?pre = []"
    by (simp add: silent intn_draws_append)
  have mid: "intn_draws (sleep_events s ?d) = [] \<and> status_codes_written (sleep_events s ?d) = []
     \<and> sleeper_calls (sleep_events s ?d) = []"
    by (simp add: silent)
  obtain k j where st: "status_events (rng w 1) (rng w 2) = [RandIntn 100 (int (rng w 1 mod 100)), RandIntn k j]"
    by (cases "rng w 1 mod 100 < 70") (simp_all add: status_events_def)
  have "handler_events s x w =
       ?pre @ [SleeperSleep s ?d] @ sleep_events s ?d
         @ [RandIntn 100 (int (rng w 1 mod 100)), RandIntn k j,
            WriteHeader (pick_status (rng w 1) (rng w 2))] @ response_events x w"
    using st by (simp add: handler_events_def Let_def)
  then show ?thesis using pre mid by blast
qed

text \<open>
  Claim C8. In every run of the handler the first draw from the random source is
  \<^verbatim>\<open>r.Intn(5001)\<close>; the delay is that many milliseconds, between 0 and 5000. The sleeper the
  caller supplied is called exactly once, with that delay, after the draw of the delay
  and before the draws that select the status code (\<^verbatim>\<open>r.Intn(100)\<close> and the index into the
  bucket) and before the status code is written. Every whole number of milliseconds
  from 0 to 5000 is the delay of some run.
\<close>

theorem delay_drawn_then_slept_once:
  "(\<exists>w' pre mid post k j c.
      weatherHandler s req w = Inr w' \<and>
      new_events w w' =
        pre @ [SleeperSleep s (int (rng w 0 mod 5001) * Millisecond)] @ mid
          @ [RandIntn 100 (int (rng w 1 mod 100)), RandIntn k j, WriteHeader c] @ post \<and>
      intn_draws pre = [(5001, int (rng w 0 mod 5001))] \<and>
      status_codes_written pre = [] \<and> intn_draws mid = [] \<and> status_codes_written mid = [] \<and>
      sleeper_calls (new_events w w') = [(s, int (rng w 0 mod 5001) * Millisecond)] \<and>
      0 \<le> int (rng w 0 mod 5001) * Millisecond \<and>
      int (rng w 0 mod 5001) * Millisecond \<le> 5000 * Millisecond) \<and>
   (\<forall>ms. 0 \<le> ms \<and> ms \<le> 5000 \<longrightarrow>
      (\<exists>v v'. weatherHandler s req v = Inr v' \<and>
         sleeper_calls (new_events v v') = [(s, ms * Millisecond)]))"
proof
  let ?x = "Get (URL_Query req) ''size''"
  obtain w' where run: "weatherHandler s req w = Inr w'"
    and ev: "new_events w w' = handler_events s ?x w"
    using weatherHandler_run by blast
  show "\<exists>w' pre mid post k j c.
      weatherHandler s req w = Inr w' \<and>
      new_events w w' =
        pre @ [SleeperSleep s (int (rng w 0 mod 5001) * Millisecond)] @ mid
          @ [RandIntn 100 (int (rng w 1 mod 100)), RandIntn k j, WriteHeader c] @ post \<and>
      intn_draws pre = [(5001, int (rng w 0 mod 5001))] \<and>
      status_codes_written pre = [] \<and> intn_draws mid = [] \<and> status_codes_written mid = [] \<and>
      sleeper_calls (new_events w w') = [(s, int (rng w 0 mod 5001) * Millisecond)] \<and>
      0 \<le> int (rng w 0 mod 5001) * Millisecond \<and>
      int (rng w 0 mod 5001) * Millisecond \<le> 5000 * Millisecond"
  proof -
    obtain pre mid post k j where
      "handler_events s ?x w =
         pre @ [SleeperSleep s (int (rng w 0 mod 5001) * Millisecond)] @ mid
           @ [RandIntn 100 (int (rng w 1 mod 100)), RandIntn k j,
              WriteHeader (pick_status (rng w 1) (rng w 2))] @ post"
      and "intn_draws pre = [(5001, int (rng w 0 mod 5001))]"
      and "status_codes_written pre = []" and "intn_draws mid = []"
      and "status_codes_written mid = []"
      using handler_events_order [of s ?x w] by blast
    moreover have "sleeper_calls (new_events w w') = [(s, int (rng w 0 mod 5001) * Millisecond)]"
      by (simp add: ev handler_sleeps)
    ultimately show ?thesis
      using run ev delay_range [of "rng w 0"] by metis
  qed
next
  show "\<forall>ms. 0 \<le> ms \<and> ms \<le> 5000 \<longrightarrow>
      (\<exists>v v'. weatherHandler s req v = Inr v' \<and>
         sleeper_calls (new_events v v') = [(s, ms * Millisecond)])"
  proof (intro allI impI)
    fix ms :: int
    assume ms: "0 \<le> ms \<and> ms \<le> 5000"
    let ?v = "world_of (\<lambda>i. nat ms)"
    have "nat ms < 5001" using ms by linarith
    then have "nat ms mod 5001 = nat ms" by (rule mod_less)
    then have d: "int (rng ?v 0 mod 5001) = ms" using ms by (simp add: world_of_def)
    obtain v' where "weatherHandler s req ?v = Inr v'"
      and "new_events ?v v' = handler_events s (Get (URL_Query req) ''size'') ?v"
      using weatherHandler_run by blast
    then have "weatherHandler s req ?v = Inr v' \<and>
         sleeper_calls (new_events ?v v') = [(s, ms * Millisecond)]"
      by (simp add: handler_sleeps d)
    then show "\<exists>v v'. weatherHandler s req v = Inr v' \<and>
         sleeper_calls (new_events v v') = [(s, ms * Millisecond)]"
      by blast
  qed
qed

theorem delay_drawn_then_slept_once_witness:
  "(\<exists>w'. weatherHandler DefaultSleeper request_without_size (world_of (\<lambda>i. 5000)) = Inr w' \<and>
      sleeper_calls (new_events (world_of (\<lambda>i. 5000)) w') = [(DefaultSleeper, 5000000000)]) \<and>
   (\<exists>v v'. weatherHandler NoOpSleeper request_without_size v = Inr v' \<and>
      sleeper_calls (new_events v v') = [(NoOpSleeper, 0)])"
proof -
  have "(0::int) \<le> 0 \<and> (0::int) \<le> 5000" by simp
  then have "\<exists>v v'. weatherHandler NoOpSleeper request_without_size v = Inr v' \<and>
      sleeper_calls (new_events v v') = [(NoOpSleeper, 0 * Millisecond)]"
    using delay_drawn_then_slept_once [of NoOpSleeper request_without_size "world_of (\<lambda>i. 5000)"]
    by blast
  moreover have "\<exists>w'. weatherHandler DefaultSleeper request_without_size (world_of (\<lambda>i. 5000)) = Inr w' \<and>
      sleeper_calls (new_events (world_of (\<lambda>i. 5000)) w') =
        [(DefaultSleeper, int (rng (world_of (\<lambda>i. 5000)) 0 mod 5001) * Millisecond)]"
    using delay_drawn_then_slept_once [of DefaultSleeper request_without_size "world_of (\<lambda>i. 5000)"]
    by blast
  ultimately show ?thesis by (simp add: world_of_def Millisecond_def)
qed


lemma ParseUint_nondigit:
  "c \<in> set ds \<Longrightarrow> \<not> is_digit c \<Longrightarrow> \<exists>e. ParseUint n ds = Inl e"
  by (induction ds arbitrary: n) (auto simp: Let_def)

lemma Atoi_nondigit:
  assumes "c \<in> set x" and "\<not> is_digit c" and "c \<noteq> CHR ''+''" and "c \<noteq> CHR ''-''"
  shows "\<exists>e. Atoi x = Inl e"
proof (cases x)
  case Nil
  then show ?thesis by (simp add: Atoi_def)
next
  case (Cons a as)
  let ?ds = "if a = CHR ''+'' \<or> a = CHR ''-'' then as else x"
  have "c \<in> set ?ds" using assms Cons by auto
  then obtain e where "ParseUint 0 ?ds = Inl e"
    using ParseUint_nondigit assms(2) by blast
  then show ?thesis using Cons by (auto simp: Atoi_def Let_def)
qed

text \<open>\<^verbatim>\<open>Atoi\<close> reads back the decimal numeral \<^verbatim>\<open>%d\<close> writes.\<close>

lemma ParseUint_append:
  "ParseUint n (xs @ ys) = (case ParseUint n xs of Inl e \<Rightarrow> Inl e | Inr v \<Rightarrow> ParseUint v ys)"
  by (induction xs arbitrary: n) (auto simp: Let_def is_digit_def)

lemma digit_char:
  "d < 10 \<Longrightarrow> is_digit (''0123456789'' ! d) \<and> of_char (''0123456789'' ! d) - 48 = d"
proof -
  assume "d < 10"
  then have "d = 0 \<or> d = 1 \<or> d = 2 \<or> d = 3 \<or> d = 4 \<or> d = 5 \<or> d = 6 \<or> d = 7
    \<or> d = 8 \<or> d = 9"
    by arith
  then show ?thesis by (elim disjE) (simp_all add: is_digit_def)
qed

lemma ParseUint_digit:
  assumes "d < 10" and "n * 10 + d < 2 ^ 63"
  shows "ParseUint n [''0123456789'' ! d] = Inr (n * 10 + d)"
proof -
  have "n < 1844674407370955162" using assms(2) by simp
  then show ?thesis using assms digit_char [OF assms(1)] by (simp add: Let_def)
qed

lemma ParseUint_FormatUint: "n < 2 ^ 63 \<Longrightarrow> ParseUint 0 (FormatUint n) = Inr n"
proof (induction n rule: FormatUint.induct)
  case (1 n)
  show ?case
  proof (cases "n < 10")
    case True
    then show ?thesis
      using ParseUint_digit [of n 0] 1(2) by (subst FormatUint.simps) simp
  next
    case False
    have "n div 10 < 2 ^ 63" using 1(2) by simp
    then have ih: "ParseUint 0 (FormatUint (n div 10)) = Inr (n div 10)"
      using 1(1) False by simp
    have "n div 10 * 10 + n mod 10 = n" by simp
    then have "ParseUint (n div 10) [''0123456789'' ! (n mod 10)] = Inr n"
      using ParseUint_digit [of "n mod 10" "n div 10"] 1(2) by simp
    then show ?thesis
      using False ih by (subst FormatUint.simps) (simp add: ParseUint_append)
  qed
qed

lemma FormatUint_head:
  "\<exists>c cs. FormatUint n = c # cs \<and> c \<noteq> CHR ''+'' \<and> c \<noteq> CHR ''-''"
proof (induction n rule: FormatUint.induct)
  case (1 n)
  show ?case
  proof (cases "n < 10")
    case True
    then have "is_digit (''0123456789'' ! n)" using digit_char by blast
    then have "''0123456789'' ! n \<noteq> CHR ''+'' \<and> ''0123456789'' ! n \<noteq> CHR ''-''"
      by (auto simp: is_digit_def)
    then show ?thesis using True by (subst FormatUint.simps) simp
  next
    case False
    then obtain c cs where "FormatUint (n div 10) = c # cs" "c \<noteq> CHR ''+''" "c \<noteq> CHR ''-''"
      using 1 by blast
    then show ?thesis using False by (subst FormatUint.simps) simp
  qed
qed

lemma Atoi_Itoa: "0 \<le> n \<Longrightarrow> n < 2 ^ 63 \<Longrightarrow> Atoi (Itoa n) = Inr n"
proof -
  assume nn: "0 \<le> n" and lt: "n < 2 ^ 63"
  obtain c cs where f: "FormatUint (nat n) = c # cs" and c: "c \<noteq> CHR ''+''" "c \<noteq> CHR ''-''"
    using FormatUint_head by blast
  have "nat n < 2 ^ 63" using nn lt by simp
  then have p: "ParseUint 0 (c # cs) = Inr (nat n)"
    using ParseUint_FormatUint [of "nat n"] f by simp
  have "Atoi (c # cs) = Inr n"
    unfolding Atoi_def using c nn lt p by (simp add: Let_def del: ParseUint.simps)
  then show ?thesis using nn f by (simp add: Itoa_def)
qed


text \<open>
  Claim C2. With \<open>x\<close> the value of the \<^verbatim>\<open>size\<close> parameter of the request (the empty string
  when the parameter is absent), the size the handler goes on with is \<open>n\<close> when
  \<^verbatim>\<open>strconv.Atoi\<close> parses \<open>x\<close> as an integer \<open>n\<close> with \<open>10 \<le> n \<le> 100\<close>, and 10 in every other case:
  \<open>n\<close> below 10 or above 100, a parse error, in particular a value with a character that
  is neither a digit nor a sign, and an absent parameter. In particular the decimal
  numeral of an \<open>n\<close> from 10 to 100 gives the size \<open>n\<close>. The handler returns for every
  request; the readings it encodes, if any, are as many as that size; and the status
  code it writes is the same whatever the request is, so invalid input is not reported
  to the caller.
\<close>

theorem effective_size_rule:
  "(\<forall>n. Atoi (Get (URL_Query req) ''size'') = Inr n \<and> 10 \<le> n \<and> n \<le> 100 \<longrightarrow>
        fst (parse_size (Get (URL_Query req) ''size'') w) = n) \<and>
   (\<forall>n. Atoi (Get (URL_Query req) ''size'') = Inr n \<and> (n < 10 \<or> 100 < n) \<longrightarrow>
        fst (parse_size (Get (URL_Query req) ''size'') w) = 10) \<and>
   (\<forall>e. Atoi (Get (URL_Query req) ''size'') = Inl e \<longrightarrow>
        fst (parse_size (Get (URL_Query req) ''size'') w) = 10) \<and>
   ((\<exists>c \<in> set (Get (URL_Query req) ''size''). \<not> is_digit c \<and> c \<noteq> CHR ''+'' \<and> c \<noteq> CHR ''-'') \<longrightarrow>
        fst (parse_size (Get (URL_Query req) ''size'') w) = 10) \<and>
   (URL_Query req ''size'' = None \<longrightarrow>
        fst (parse_size (Get (URL_Query req) ''size'') w) = 10) \<and>
   (\<forall>n. 10 \<le> n \<and> n \<le> 100 \<and> Get (URL_Query req) ''size'' = Itoa n \<longrightarrow>
        fst (parse_size (Get (URL_Query req) ''size'') w) = n) \<and>
   (\<exists>w' c. weatherHandler s req w = Inr w' \<and>
      status_codes_written (new_events w w') = [c] \<and>
      (\<forall>d rs. d \<in> set (encoded (new_events w w')) \<and> Readings d = Some rs \<longrightarrow>
         len rs = fst (parse_size (Get (URL_Query req) ''size'') w)) \<and>
      (\<forall>req'. \<exists>w''. weatherHandler s req' w = Inr w'' \<and>
         status_codes_written (new_events w w'') = [c]))"
proof -
  let ?x = "Get (URL_Query req) ''size''"
  have 1: "\<forall>n. Atoi ?x = Inr n \<and> 10 \<le> n \<and> n \<le> 100 \<longrightarrow> fst (parse_size ?x w) = n"
    by (auto simp: parse_size_def)
  have 2: "\<forall>n. Atoi ?x = Inr n \<and> (n < 10 \<or> 100 < n) \<longrightarrow> fst (parse_size ?x w) = 10"
    by (auto simp: parse_size_def)
  have 3: "\<forall>e. Atoi ?x = Inl e \<longrightarrow> fst (parse_size ?x w) = 10"
    by (auto simp: parse_size_def)
  have 4: "(\<exists>c \<in> set ?x. \<not> is_digit c \<and> c \<noteq> CHR ''+'' \<and> c \<noteq> CHR ''-'') \<longrightarrow>
        fst (parse_size ?x w) = 10"
    using Atoi_nondigit 3 by blast
  have 5: "URL_Query req ''size'' = None \<longrightarrow> fst (parse_size ?x w) = 10"
    by (simp add: Get_def parse_size_def Atoi_def)
  have 9: "\<forall>n. 10 \<le> n \<and> n \<le> 100 \<and> ?x = Itoa n \<longrightarrow> fst (parse_size ?x w) = n"
  proof (intro allI impI)
    fix n :: int
    assume n: "10 \<le> n \<and> n \<le> 100 \<and> ?x = Itoa n"
    then have "Atoi ?x = Inr n" using Atoi_Itoa [of n] by simp
    with n show "fst (parse_size ?x w) = n" using 1 by blast
  qed
  obtain w' where run: "weatherHandler s req w = Inr w'"
    and ev: "new_events w w' = handler_events s ?x w"
    using weatherHandler_run by blast
  have sz: "10 \<le> spec_effective_size ?x \<and> spec_effective_size ?x \<le> 100"
    by (rule spec_effective_size_range)
  then have l: "len (map (reading_at (w\<lparr>rng := \<lambda>i. rng w (i + 3)\<rparr>))
                   [0..<nat (spec_effective_size ?x)]) = spec_effective_size ?x"
    by (simp add: len_def)
  have 6: "\<forall>d rs. d \<in> set (encoded (new_events w w')) \<and> Readings d = Some rs \<longrightarrow>
         len rs = fst (parse_size ?x w)"
    using l by (auto simp: ev handler_encoded parse_size_eq split: if_splits)
  have 7: "\<forall>req'. \<exists>w''. weatherHandler s req' w = Inr w'' \<and>
         status_codes_written (new_events w w'') = [pick_status (rng w 1) (rng w 2)]"
  proof
    fix req'
    obtain w'' where "weatherHandler s req' w = Inr w''"
      and "new_events w w'' = handler_events s (Get (URL_Query req') ''size'') w"
      using weatherHandler_run by blast
    then show "\<exists>w''. weatherHandler s req' w = Inr w'' \<and>
         status_codes_written (new_events w w'') = [pick_status (rng w 1) (rng w 2)]"
      by (simp add: handler_status)
  qed
  have 8: "status_codes_written (new_events w w') = [pick_status (rng w 1) (rng w 2)]"
    by (simp add: ev handler_status)
  show ?thesis using 1 2 3 4 5 9 run 6 7 8 by blast
qed

theorem effective_size_rule_witness:
  "fst (parse_size (Get (URL_Query (request_with_size ''50'')) ''size'') (world_of (\<lambda>i. 0))) = 50 \<and>
   fst (parse_size (Get (URL_Query (request_with_size ''100'')) ''size'') (world_of (\<lambda>i. 0))) = 100 \<and>
   fst (parse_size (Get (URL_Query (request_with_size ''5'')) ''size'') (world_of (\<lambda>i. 0))) = 10 \<and>
   fst (parse_size (Get (URL_Query (request_with_size ''150'')) ''size'') (world_of (\<lambda>i. 0))) = 10 \<and>
   fst (parse_size (Get (URL_Query (request_with_size ''abc'')) ''size'') (world_of (\<lambda>i. 0))) = 10 \<and>
   fst (parse_size (Get (URL_Query (request_with_size [])) ''size'') (world_of (\<lambda>i. 0))) = 10 \<and>
   fst (parse_size (Get (URL_Query request_without_size) ''size'') (world_of (\<lambda>i. 0))) = 10"
proof -
  let ?w = "world_of (\<lambda>i. 0)"
  have a: "Atoi (Get (URL_Query (request_with_size ''50'')) ''size'') = Inr 50 \<and> (10::int) \<le> 50 \<and> (50::int) \<le> 100"
    by (simp add: Get_request_with_size Atoi_examples)
  have b: "Atoi (Get (URL_Query (request_with_size ''100'')) ''size'') = Inr 100 \<and> (10::int) \<le> 100 \<and> (100::int) \<le> 100"
    by (simp add: Get_request_with_size Atoi_examples)
  have c: "Atoi (Get (URL_Query (request_with_size ''5'')) ''size'') = Inr 5 \<and> ((5::int) < 10 \<or> (100::int) < 5)"
    by (simp add: Get_request_with_size Atoi_examples)
  have d: "Atoi (Get (URL_Query (request_with_size ''150'')) ''size'') = Inr 150 \<and> ((150::int) < 10 \<or> (100::int) < 150)"
    by (simp add: Get_request_with_size Atoi_examples)
  have e: "\<exists>c \<in> set (Get (URL_Query (request_with_size ''abc'')) ''size''). \<not> is_digit c \<and> c \<noteq> CHR ''+'' \<and> c \<noteq> CHR ''-''"
    by (simp add: Get_request_with_size is_digit_def)
  have f: "Atoi (Get (URL_Query (request_with_size [])) ''size'') = Inl ErrSyntax"
    by (simp add: Get_request_with_size Atoi_examples)
  have g: "URL_Query request_without_size ''size'' = None"
    by (simp add: request_without_size_def)
  have 1: "fst (parse_size (Get (URL_Query (request_with_size ''50'')) ''size'') ?w) = 50"
    using effective_size_rule [of "request_with_size ''50''" ?w NoOpSleeper] a by blast
  have 2: "fst (parse_size (Get (URL_Query (request_with_size ''100'')) ''size'') ?w) = 100"
    using effective_size_rule [of "request_with_size ''100''" ?w NoOpSleeper] b by blast
  have 3: "fst (parse_size (Get (URL_Query (request_with_size ''5'')) ''size'') ?w) = 10"
    using effective_size_rule [of "request_with_size ''5''" ?w NoOpSleeper] c by blast
  have 4: "fst (parse_size (Get (URL_Query (request_with_size ''150'')) ''size'') ?w) = 10"
    using effective_size_rule [of "request_with_size ''150''" ?w NoOpSleeper] d by blast
  have 5: "fst (parse_size (Get (URL_Query (request_with_size ''abc'')) ''size'') ?w) = 10"
    using effective_size_rule [of "request_with_size ''abc''" ?w NoOpSleeper] e by blast
  have 6: "fst (parse_size (Get (URL_Query (request_with_size [])) ''size'') ?w) = 10"
    using effective_size_rule [of "request_with_size []" ?w NoOpSleeper] f by blast
  have 7: "fst (parse_size (Get (URL_Query request_without_size) ''size'') ?w) = 10"
    using effective_size_rule [of request_without_size ?w NoOpSleeper] g by blast
  show ?thesis using 1 2 3 4 5 6 7 by simp
qed


end
